theory Spec2Isabelle
  imports Complex_Main
begin

section \<open>The remote imagery service\<close>

text \<open>
  The repository is a client of a hosted imagery service. The client code builds queries
  (data\_processor.py) and a dashboard script renders their results (app.py). The service is
  not part of the repository: what it holds and what it answers is a parameter of the
  model (the record \<open>service\<close>), and the query-builder calls the code uses are given the
  meaning the service documents for them. Pixel values are real numbers here; the
  service computes them in floating point.
\<close>

type_synonym pixel = nat
  \<comment> \<open>one cell of a sampling grid\<close>

type_synonym raster = "pixel \<Rightarrow> real option"
  \<comment> \<open>one band: the value at each cell, \<open>None\<close> where the cell is masked\<close>

type_synonym date = int
  \<comment> \<open>a calendar day, counted in days; the code writes it as the text YYYY-MM-DD\<close>

datatype geometry = Rectangle real real real real
  \<comment> \<open>\<open>ee.Geometry.Rectangle([west, south, east, north])\<close>\<close>

text \<open>An image of the collection LANDSAT/LC08/C02/T1\_L2, with the attributes the code reads.\<close>

record scene =
  system_time_start :: int
  CLOUD_COVER :: real
  SR_B4 :: raster
  SR_B5 :: raster

text \<open>An image computed by the service: named bands, and the capture time when it has one.\<close>

record ee_image =
  time_start :: "int option"
  bands :: "(string \<times> raster) list"

datatype error = EEException | KeyError | IndexError | TypeError

text \<open>What a round trip to the service asks for.\<close>

datatype request =
    Initialize
  | Authenticate
  | SizeInfo geometry date date
  | DateInfo geometry date date nat
  | StatsInfo geometry date date nat
  | AreaStatsInfo geometry date date
  | MapLayer geometry date date
  | RoiLayer geometry
  | RoiArea geometry

record service =
  catalogue :: "scene list"
  intersects :: "geometry \<Rightarrow> scene \<Rightarrow> bool"
  grid :: "geometry \<Rightarrow> nat \<Rightarrow> (pixel \<times> real) list"
  area :: "geometry \<Rightarrow> real"
  fails :: "nat \<Rightarrow> bool"

text \<open>
  \<open>catalogue\<close> is the image collection; \<open>intersects\<close> the test behind \<open>filterBounds\<close>;
  \<open>grid g s\<close> the cells a reduction over \<open>g\<close> samples at a scale of \<open>s\<close> meters, each with
  the weight (the fraction of the cell inside \<open>g\<close>) the mean reducer gives it; \<open>area\<close> the
  area of a geometry in square meters; \<open>fails n\<close> says that the round trip number \<open>n\<close> of a
  run (counted from 0) is answered with an error (service unreachable, credentials
  refused, query rejected).
\<close>

subsection \<open>Round trips\<close>

text \<open>
  The client state is the list of round trips made so far. Query objects are lazy: building
  one never fails and never talks to the service. A server-side result is modelled by the
  value the service would compute for it, or the error it would report; \<open>getInfo\<close> is the
  round trip that fetches it, and the place where either error reaches the client.
\<close>

definition getInfo :: "service \<Rightarrow> request \<Rightarrow> error + 'a \<Rightarrow> request list \<Rightarrow> (error + 'a) \<times> request list" where
  "getInfo svc rq v calls = (if fails svc (length calls) then Inl EEException else v, calls @ [rq])"

subsection \<open>Query-builder calls\<close>

definition ms_per_day :: int where
  "ms_per_day = 86400000"

definition filterBounds :: "service \<Rightarrow> geometry \<Rightarrow> scene list \<Rightarrow> scene list" where
  "filterBounds svc roi coll = filter (intersects svc roi) coll"

text \<open>\<open>filterDate(start, end)\<close>: capture time from the start day on, and before the end day.\<close>

definition filterDate :: "date \<Rightarrow> date \<Rightarrow> scene list \<Rightarrow> scene list" where
  "filterDate start_date end_date coll =
     filter (\<lambda>sc. start_date * ms_per_day \<le> system_time_start sc
                 \<and> system_time_start sc < end_date * ms_per_day) coll"

text \<open>\<open>sort('CLOUD_COVER')\<close>: ascending in the property.\<close>

definition sort_CLOUD_COVER :: "scene list \<Rightarrow> scene list" where
  "sort_CLOUD_COVER coll = sort_key CLOUD_COVER coll"

text \<open>Band arithmetic is per cell; a cell masked in an operand is masked in the result.\<close>

definition band_op :: "(real \<Rightarrow> real \<Rightarrow> real) \<Rightarrow> raster \<Rightarrow> raster \<Rightarrow> raster" where
  "band_op f a b = (\<lambda>p. case a p of None \<Rightarrow> None
                         | Some x \<Rightarrow> (case b p of None \<Rightarrow> None | Some y \<Rightarrow> Some (f x y)))"

definition ee_subtract :: "raster \<Rightarrow> raster \<Rightarrow> raster" where
  "ee_subtract a b = band_op (\<lambda>x y. x - y) a b"

definition ee_add :: "raster \<Rightarrow> raster \<Rightarrow> raster" where
  "ee_add a b = band_op (\<lambda>x y. x + y) a b"

text \<open>\<open>divide\<close> returns 0 for a division by 0.\<close>

definition ee_divide :: "raster \<Rightarrow> raster \<Rightarrow> raster" where
  "ee_divide a b = band_op (\<lambda>x y. if y = 0 then 0 else x / y) a b"

text \<open>\<open>multiply\<close> by a constant: every band, every cell; band names and masks stay.\<close>

definition ee_multiply :: "ee_image \<Rightarrow> real \<Rightarrow> ee_image" where
  "ee_multiply img c =
     img\<lparr>bands := map (\<lambda>(n, r). (n, \<lambda>p. map_option (\<lambda>x. x * c) (r p))) (bands img)\<rparr>"

definition ee_select :: "string \<Rightarrow> ee_image \<Rightarrow> ee_image" where
  "ee_select name img = img\<lparr>bands := filter (\<lambda>(n, r). n = name) (bands img)\<rparr>"

definition band_value :: "ee_image \<Rightarrow> string \<Rightarrow> pixel \<Rightarrow> real option" where
  "band_value img name p = (case map_of (bands img) name of None \<Rightarrow> None | Some r \<Rightarrow> r p)"

text \<open>The mean of the values that are there; nothing when none is.\<close>

definition mean_valid :: "real option list \<Rightarrow> real option" where
  "mean_valid xs =
     (let vs = concat (map (\<lambda>x. case x of None \<Rightarrow> [] | Some v \<Rightarrow> [v]) xs)
      in if vs = [] then None else Some (sum_list vs / real (length vs)))"

text \<open>
  \<open>ImageCollection.mean()\<close>: per band and per cell, the mean over the images in which the
  cell is not masked. The bands are those of the first image; an empty collection
  reduces to an image without bands.
\<close>

definition ee_mean :: "ee_image list \<Rightarrow> ee_image" where
  "ee_mean coll =
     (case coll of
        [] \<Rightarrow> \<lparr>time_start = None, bands = []\<rparr>
      | img # _ \<Rightarrow>
          \<lparr>time_start = None,
           bands = map (\<lambda>(n, r). (n, \<lambda>p. mean_valid (map (\<lambda>i. band_value i n p) coll)))
                       (bands img)\<rparr>)"

text \<open>
  The mean reducer over a region: the weighted mean of the unmasked cells the region
  samples, null (\<open>None\<close>) when there is none.
\<close>

definition weighted_mean :: "(pixel \<times> real) list \<Rightarrow> raster \<Rightarrow> real option" where
  "weighted_mean cells r =
     (let vs = concat (map (\<lambda>(p, w). case r p of None \<Rightarrow> [] | Some v \<Rightarrow> [(w, v)]) cells)
      in if vs = [] then None
         else Some (sum_list (map (\<lambda>(w, v). w * v) vs) / sum_list (map fst vs)))"

text \<open>
  \<open>reduceRegion(reducer=ee.Reducer.mean(), geometry, scale, maxPixels)\<close>: a dictionary with
  one entry per band of the image; the service reports an error when the region has
  more cells at the scale than \<open>maxPixels\<close>.
\<close>

definition reduceRegion_mean ::
  "service \<Rightarrow> ee_image \<Rightarrow> geometry \<Rightarrow> nat \<Rightarrow> nat \<Rightarrow> error + (string \<times> real option) list" where
  "reduceRegion_mean svc img geom scale maxPixels =
     (let cells = grid svc geom scale
      in if length cells > maxPixels then Inl EEException
         else Inr (map (\<lambda>(n, r). (n, weighted_mean cells r)) (bands img)))"

text \<open>\<open>ee.List.get(i)\<close> of \<open>toList(count)\<close>: an error past the end.\<close>

definition toList :: "'a list \<Rightarrow> nat \<Rightarrow> 'a list" where
  "toList coll count = take count coll"

definition ee_get :: "'a list \<Rightarrow> nat \<Rightarrow> error + 'a" where
  "ee_get xs i = (if i < length xs then Inr (xs ! i) else Inl EEException)"

text \<open>\<open>ee.Date(image.get('system:time_start')).format('YYYY-MM-dd')\<close>\<close>

definition format_date :: "error + ee_image \<Rightarrow> error + date" where
  "format_date v =
     (case v of
        Inl e \<Rightarrow> Inl e
      | Inr img \<Rightarrow> (case time_start img of None \<Rightarrow> Inl EEException
                                        | Some t \<Rightarrow> Inr (t div ms_per_day)))"

text \<open>Python's \<open>d[k]\<close> on a dictionary and \<open>t[i]\<close> on a tuple.\<close>

definition dict_get :: "(string \<times> 'v) list \<Rightarrow> string \<Rightarrow> error + 'v" where
  "dict_get d k = (case map_of d k of None \<Rightarrow> Inl KeyError | Some v \<Rightarrow> Inr v)"

definition tuple_get :: "'a list \<Rightarrow> nat \<Rightarrow> error + 'a" where
  "tuple_get t i = (if i < length t then Inr (t ! i) else Inl IndexError)"

section \<open>data\_processor.py: CarbonSequestrationProcessor\<close>

text \<open>
  \<open>add_ndvi\<close>, the function mapped over the collection: the image with one more band,
  NDVI = (SR\_B5 - SR\_B4) / (SR\_B5 + SR\_B4).
\<close>

definition add_ndvi :: "scene \<Rightarrow> ee_image" where
  "add_ndvi sc =
     (let nir = SR_B5 sc;
          red = SR_B4 sc;
          ndvi = ee_divide (ee_subtract nir red) (ee_add nir red)
      in \<lparr>time_start = Some (system_time_start sc),
          bands = [(''SR_B4'', SR_B4 sc), (''SR_B5'', SR_B5 sc)] @ [(''NDVI'', ndvi)]\<rparr>)"

definition get_ndvi_time_series :: "service \<Rightarrow> geometry \<Rightarrow> date \<Rightarrow> date \<Rightarrow> ee_image list" where
  "get_ndvi_time_series svc roi start_date end_date =
     (let collection = sort_CLOUD_COVER (filterDate start_date end_date
                          (filterBounds svc roi (catalogue svc)));
          with_ndvi = map add_ndvi collection;
          ndvi_collection = map (ee_select ''NDVI'') with_ndvi
      in ndvi_collection)"

definition estimate_carbon_storage :: "ee_image \<Rightarrow> ee_image" where
  "estimate_carbon_storage ndvi = (let carbon = ee_multiply ndvi 200 in carbon)"

definition get_area_statistics ::
  "service \<Rightarrow> geometry \<Rightarrow> date \<Rightarrow> date \<Rightarrow> error + (string \<times> real option) list" where
  "get_area_statistics svc roi start_date end_date =
     (let ndvi_series = get_ndvi_time_series svc roi start_date end_date;
          mean_ndvi = ee_mean ndvi_series;
          carbon_storage = estimate_carbon_storage mean_ndvi;
          stats = reduceRegion_mean svc carbon_storage roi 30 1000000000
      in stats)"

text \<open>
  A server-side operation applied to a server-side value: an error in the operand is the
  error of the result.
\<close>

definition on_server :: "error + 'a \<Rightarrow> ('a \<Rightarrow> error + 'b) \<Rightarrow> error + 'b" where
  "on_server v f = (case v of Inl err \<Rightarrow> Inl err | Inr x \<Rightarrow> f x)"

text \<open>\<open>pd.DataFrame({'Date': dates, 'Carbon_Storage': carbon_values})\<close>\<close>

record dataframe =
  Date :: "date list"
  Carbon_Storage :: "real option list"

text \<open>
  The loop of \<open>create_time_series_data\<close> over \<open>range(count)\<close>, with the two lists it
  appends to and the round trips made so far. An exception leaves the loop and the
  function at once.
\<close>

fun process_images ::
  "service \<Rightarrow> geometry \<Rightarrow> date \<Rightarrow> date \<Rightarrow> ee_image list \<Rightarrow> nat \<Rightarrow> nat list
     \<Rightarrow> date list \<times> real option list \<Rightarrow> request list
     \<Rightarrow> (error + date list \<times> real option list) \<times> request list" where
  "process_images svc roi start_date end_date ndvi_series count [] (dates, carbon_values) calls =
     (Inr (dates, carbon_values), calls)"
| "process_images svc roi start_date end_date ndvi_series count (i # rest) (dates, carbon_values) calls =
     (let img = ee_get (toList ndvi_series count) i
      in case getInfo svc (DateInfo roi start_date end_date i) (format_date img) calls of
           (Inl err, calls1) \<Rightarrow> (Inl err, calls1)
         | (Inr d, calls1) \<Rightarrow>
             (let carbon = on_server img (\<lambda>x. Inr (estimate_carbon_storage x));
                  stats = on_server carbon (\<lambda>x. reduceRegion_mean svc x roi 30 1000000000)
              in case getInfo svc (StatsInfo roi start_date end_date i) stats calls1 of
                   (Inl err, calls2) \<Rightarrow> (Inl err, calls2)
                 | (Inr stats_dict, calls2) \<Rightarrow>
                     (case dict_get stats_dict ''NDVI'' of
                        Inl err \<Rightarrow> (Inl err, calls2)
                      | Inr v \<Rightarrow>
                          process_images svc roi start_date end_date ndvi_series count rest
                            (dates @ [d], carbon_values @ [v]) calls2)))"

definition create_time_series_data ::
  "service \<Rightarrow> geometry \<Rightarrow> date \<Rightarrow> date \<Rightarrow> request list \<Rightarrow> (error + dataframe) \<times> request list" where
  "create_time_series_data svc roi start_date end_date calls =
     (let ndvi_series = get_ndvi_time_series svc roi start_date end_date
      in case getInfo svc (SizeInfo roi start_date end_date) (Inr (length ndvi_series)) calls of
           (Inl err, calls1) \<Rightarrow> (Inl err, calls1)
         | (Inr count, calls1) \<Rightarrow>
             (case process_images svc roi start_date end_date ndvi_series count [0..<count]
                     ([], []) calls1 of
                (Inl err, calls2) \<Rightarrow> (Inl err, calls2)
              | (Inr (dates, carbon_values), calls2) \<Rightarrow>
                  (Inr \<lparr>Date = dates, Carbon_Storage = carbon_values\<rparr>, calls2)))"

text \<open>
  The constructor: \<open>ee.Initialize()\<close>; when that raises, \<open>ee.Authenticate()\<close> and
  \<open>ee.Initialize()\<close> once more; an exception of either is printed and raised again.
\<close>

definition CarbonSequestrationProcessor_init ::
  "service \<Rightarrow> request list \<Rightarrow> (error + unit) \<times> request list" where
  "CarbonSequestrationProcessor_init svc calls =
     (case getInfo svc Initialize (Inr ()) calls of
        (Inr u, calls1) \<Rightarrow> (Inr (), calls1)
      | (Inl err, calls1) \<Rightarrow>
          (case getInfo svc Authenticate (Inr ()) calls1 of
             (Inl err, calls2) \<Rightarrow> (Inl err, calls2)
           | (Inr u, calls2) \<Rightarrow>
               (case getInfo svc Initialize (Inr ()) calls2 of
                  (Inl err, calls3) \<Rightarrow> (Inl err, calls3)
                | (Inr u, calls3) \<Rightarrow> (Inr (), calls3))))"

section \<open>app.py: the dashboard script\<close>

text \<open>
  One run of the script. Its input is the service, whether the process already holds a
  cached processor (\<open>st.cache_resource\<close>), and the tuple the date picker returns. Its
  output is what it shows, in order, and the round trips it made. Static page elements
  (title, headers) are left out, but for the footer, which marks a run that reached its
  end.
\<close>

datatype ui =
    SetupInstructions
  | InitError
  | InitInfo
  | Uncaught error
  | MapShown
  | MapError error
  | AverageMetric real
  | TotalMetric real
  | StatsError error
  | LineChart dataframe
  | TimeSeriesError error
  | Footer

definition roi :: geometry where
  "roi = Rectangle (-73.5) 42.0 (-73.0) 42.5"

text \<open>\<open>initialize_earth_engine\<close>: what it shows, and whether it called \<open>st.stop()\<close>.\<close>

definition initialize_earth_engine :: "service \<Rightarrow> request list \<Rightarrow> (ui list \<times> bool) \<times> request list" where
  "initialize_earth_engine svc calls =
     (case getInfo svc Initialize (Inr ()) calls of
        (Inl err, calls1) \<Rightarrow> (([SetupInstructions], True), calls1)
      | (Inr u, calls1) \<Rightarrow> (([], False), calls1))"

definition init_processor :: "service \<Rightarrow> bool \<Rightarrow> request list \<Rightarrow> (error + unit) \<times> request list" where
  "init_processor svc cached calls =
     (if cached then (Inr (), calls) else CarbonSequestrationProcessor_init svc calls)"

text \<open>The block \<open>with col1\<close>, from its \<open>try\<close> on: the two layers of the map are fetched from the service.\<close>

definition carbon_storage_map ::
  "service \<Rightarrow> date \<Rightarrow> date \<Rightarrow> request list \<Rightarrow> ui list \<times> request list" where
  "carbon_storage_map svc start_date end_date calls =
     (let ndvi_series = get_ndvi_time_series svc roi start_date end_date;
          mean_ndvi = ee_mean ndvi_series;
          carbon_storage = estimate_carbon_storage mean_ndvi
      in case getInfo svc (MapLayer roi start_date end_date) (Inr carbon_storage) calls of
           (Inl err, calls1) \<Rightarrow> ([MapError err], calls1)
         | (Inr layer, calls1) \<Rightarrow>
             (case getInfo svc (RoiLayer roi) (Inr ()) calls1 of
                (Inl err, calls2) \<Rightarrow> ([MapError err], calls2)
              | (Inr u, calls2) \<Rightarrow> ([MapShown], calls2)))"

text \<open>
  The block \<open>with col2\<close>. Formatting \<open>None\<close> with \<open>:.1f\<close> raises a TypeError. The first
  metric is on the page before the area is fetched.
\<close>

definition carbon_storage_statistics ::
  "service \<Rightarrow> date \<Rightarrow> date \<Rightarrow> request list \<Rightarrow> ui list \<times> request list" where
  "carbon_storage_statistics svc start_date end_date calls =
     (let stats = get_area_statistics svc roi start_date end_date
      in case getInfo svc (AreaStatsInfo roi start_date end_date) stats calls of
           (Inl err, calls1) \<Rightarrow> ([StatsError err], calls1)
         | (Inr stats_dict, calls1) \<Rightarrow>
             (case dict_get stats_dict ''NDVI'' of
                Inl err \<Rightarrow> ([StatsError err], calls1)
              | Inr None \<Rightarrow> ([StatsError TypeError], calls1)
              | Inr (Some v) \<Rightarrow>
                  (case getInfo svc (RoiArea roi) (Inr (area svc roi)) calls1 of
                     (Inl err, calls2) \<Rightarrow> ([AverageMetric v, StatsError err], calls2)
                   | (Inr a, calls2) \<Rightarrow>
                       (let area_ha = a / 10000;
                            total_carbon = v * area_ha
                        in ([AverageMetric v, TotalMetric total_carbon], calls2)))))"

text \<open>The time series plot: the data frame goes to \<open>px.line\<close> as it is.\<close>

definition carbon_storage_over_time ::
  "service \<Rightarrow> date \<Rightarrow> date \<Rightarrow> request list \<Rightarrow> ui list \<times> request list" where
  "carbon_storage_over_time svc start_date end_date calls =
     (case create_time_series_data svc roi start_date end_date calls of
        (Inl err, calls1) \<Rightarrow> ([TimeSeriesError err], calls1)
      | (Inr df, calls1) \<Rightarrow> ([LineChart df], calls1))"

text \<open>
  The script from \<open>try\<close> of the first column to its end: the map, the statistics, the time
  series plot, each inside its own \<open>try\<close>, and the footer.
\<close>

definition main_content ::
  "service \<Rightarrow> date \<Rightarrow> date \<Rightarrow> request list \<Rightarrow> ui list \<times> request list" where
  "main_content svc start_date end_date calls =
     (let (shown1, calls1) = carbon_storage_map svc start_date end_date calls;
          (shown2, calls2) = carbon_storage_statistics svc start_date end_date calls1;
          (shown3, calls3) = carbon_storage_over_time svc start_date end_date calls2
      in (shown1 @ shown2 @ shown3 @ [Footer], calls3))"

text \<open>
  The script. \<open>date_range[1]\<close> and \<open>date_range[0]\<close> are read outside every \<open>try\<close>: an
  IndexError there ends the run.
\<close>

definition app :: "service \<Rightarrow> bool \<Rightarrow> date list \<Rightarrow> ui list \<times> request list" where
  "app svc cached date_range =
     (case initialize_earth_engine svc [] of
        ((shown, True), calls1) \<Rightarrow> (shown, calls1)
      | ((shown, False), calls1) \<Rightarrow>
          (case init_processor svc cached calls1 of
             (Inl err, calls2) \<Rightarrow> (shown @ [InitError, InitInfo], calls2)
           | (Inr processor, calls2) \<Rightarrow>
               (case tuple_get date_range 1 of
                  Inl err \<Rightarrow> (shown @ [Uncaught err], calls2)
                | Inr end_date \<Rightarrow>
                    (case tuple_get date_range 0 of
                       Inl err \<Rightarrow> (shown @ [Uncaught err], calls2)
                     | Inr start_date \<Rightarrow>
                         (let (shown1, calls3) = main_content svc start_date end_date calls2
                          in (shown @ shown1, calls3))))))"

text \<open>The date window a request carries.\<close>

fun window :: "request \<Rightarrow> (date \<times> date) option" where
  "window (SizeInfo g s e) = Some (s, e)"
| "window (DateInfo g s e i) = Some (s, e)"
| "window (StatsInfo g s e i) = Some (s, e)"
| "window (AreaStatsInfo g s e) = Some (s, e)"
| "window (MapLayer g s e) = Some (s, e)"
| "window rq = None"

text \<open>
  The specification asks of a date range that start \<open>\<le>\<close> end. A request whose window has
  its end before its start is what it calls malformed.
\<close>

definition malformed :: "request \<Rightarrow> bool" where
  "malformed rq = (case window rq of None \<Rightarrow> False | Some (s, e) \<Rightarrow> e < s)"

section \<open>A sample service\<close>

text \<open>
  Two images over a region of two cells. The earlier image is the cloudier one, and its
  second cell is masked.
\<close>

definition scene_early :: scene where
  "scene_early = \<lparr>system_time_start = 10 * 86400000 + 3600000, CLOUD_COVER = 40,
     SR_B4 = (\<lambda>p. if p = 0 then Some 0 else None),
     SR_B5 = (\<lambda>p. if p = 0 then Some 1 else None)\<rparr>"

definition scene_late :: scene where
  "scene_late = \<lparr>system_time_start = 20 * 86400000, CLOUD_COVER = 5,
     SR_B4 = (\<lambda>p. Some 1), SR_B5 = (\<lambda>p. Some 3)\<rparr>"

definition demo :: service where
  "demo = \<lparr>catalogue = [scene_early, scene_late], intersects = (\<lambda>g sc. True),
     grid = (\<lambda>g s. [(0, 1), (1, 1)]), area = (\<lambda>g. 43000000), fails = (\<lambda>n. False)\<rparr>"

text \<open>
  The sample service with outages: at startup; at the second initialization of a run; at
  the second initialization and the authentication after it; at the fifth round trip.
\<close>

definition demo_down :: service where
  "demo_down = demo\<lparr>fails := (\<lambda>n. n = 0)\<rparr>"

definition demo_retry :: service where
  "demo_retry = demo\<lparr>fails := (\<lambda>n. n = 1)\<rparr>"

definition demo_halt :: service where
  "demo_halt = demo\<lparr>fails := (\<lambda>n. n = 1 \<or> n = 2)\<rparr>"

definition demo_outage :: service where
  "demo_outage = demo\<lparr>fails := (\<lambda>n. n = 4)\<rparr>"

text \<open>The same region with two images without a masked cell.\<close>

definition scene_clear :: scene where
  "scene_clear = \<lparr>system_time_start = 15 * 86400000, CLOUD_COVER = 20,
     SR_B4 = (\<lambda>p. Some 1), SR_B5 = (\<lambda>p. Some 1)\<rparr>"

definition demo_clear :: service where
  "demo_clear = demo\<lparr>catalogue := [scene_clear, scene_late]\<rparr>"

section \<open>Properties\<close>

lemma map_of_scaled:
  "map_of (map (\<lambda>(n, r). (n, f r)) xs) k = map_option f (map_of xs k)"
  by (induction xs) auto

lemma band_value_multiply:
  "band_value (ee_multiply img c) n p = map_option (\<lambda>x. x * c) (band_value img n p)"
proof -
  have "map_of (bands (ee_multiply img c)) n
        = map_option (\<lambda>r p. map_option (\<lambda>x. x * c) (r p)) (map_of (bands img) n)"
    unfolding ee_multiply_def by (simp add: map_of_scaled)
  then show ?thesis
    by (cases "map_of (bands img) n") (simp_all add: band_value_def)
qed

text \<open>
  C1. \<open>estimate_carbon_storage\<close> is a pure transform of the image it is given: every band
  keeps its name, a masked cell stays masked, and every value \<open>v\<close> becomes \<open>v * 200\<close>
  (0.5 becomes 100). It is total, so it has no error case, and since the index is not
  clamped its results have no bound: every bound is exceeded for some input.
\<close>

theorem estimate_carbon_storage_times_200:
  "band_value (estimate_carbon_storage img) n p = map_option (\<lambda>v. v * 200) (band_value img n p)
   \<and> map fst (bands (estimate_carbon_storage img)) = map fst (bands img)
   \<and> band_value (estimate_carbon_storage \<lparr>time_start = None, bands = [(''NDVI'', \<lambda>p. Some (1 / 2))]\<rparr>)
        ''NDVI'' p = Some 100
   \<and> (\<forall>B. \<exists>v. B < v \<and> band_value (estimate_carbon_storage
          \<lparr>time_start = None, bands = [(''NDVI'', \<lambda>p. Some (v / 200))]\<rparr>) ''NDVI'' p = Some v)"
proof -
  have a: "band_value (estimate_carbon_storage i) k q
           = map_option (\<lambda>v. v * 200) (band_value i k q)" for i k q
    by (simp add: estimate_carbon_storage_def band_value_multiply)
  have b: "map fst (bands (estimate_carbon_storage img)) = map fst (bands img)"
    by (simp add: estimate_carbon_storage_def ee_multiply_def case_prod_unfold comp_def)
  have c: "\<exists>v. B < v \<and> band_value (estimate_carbon_storage
          \<lparr>time_start = None, bands = [(''NDVI'', \<lambda>p. Some (v / 200))]\<rparr>) ''NDVI'' p = Some v" for B :: real
  proof -
    have "B < B + 1" by simp
    moreover have "band_value (estimate_carbon_storage
          \<lparr>time_start = None, bands = [(''NDVI'', \<lambda>p. Some ((B + 1) / 200))]\<rparr>) ''NDVI'' p = Some (B + 1)"
      unfolding a by (simp add: band_value_def)
    ultimately show ?thesis by blast
  qed
  have d: "band_value (estimate_carbon_storage \<lparr>time_start = None, bands = [(''NDVI'', \<lambda>p. Some (1 / 2))]\<rparr>)
        ''NDVI'' p = Some 100"
    unfolding a by (simp add: band_value_def)
  show ?thesis using a b c d by blast
qed

lemma band_value_add_ndvi:
  "band_value (add_ndvi sc) ''NDVI'' p =
     (case SR_B5 sc p of None \<Rightarrow> None
      | Some nir \<Rightarrow> (case SR_B4 sc p of None \<Rightarrow> None
          | Some red \<Rightarrow> Some (if nir + red = 0 then 0 else (nir - red) / (nir + red))))"
  by (simp add: band_value_def add_ndvi_def Let_def ee_divide_def ee_subtract_def ee_add_def
      band_op_def split: option.splits)

text \<open>
  C6. Where both bands of an image have a value, both values are non-negative and their
  sum is not zero, the NDVI band that \<open>add_ndvi\<close> adds holds
  (nearInfrared - red) / (nearInfrared + red) at that cell, and this value lies in [-1, 1].
\<close>

theorem ndvi_in_range:
  assumes "SR_B5 sc p = Some nir" and "SR_B4 sc p = Some red"
    and "0 \<le> nir" and "0 \<le> red" and "nir + red \<noteq> 0"
  shows "band_value (add_ndvi sc) ''NDVI'' p = Some ((nir - red) / (nir + red))
         \<and> - 1 \<le> (nir - red) / (nir + red) \<and> (nir - red) / (nir + red) \<le> 1"
proof -
  have pos: "0 < nir + red" using assms by linarith
  have v: "band_value (add_ndvi sc) ''NDVI'' p = Some ((nir - red) / (nir + red))"
    using assms by (simp add: band_value_add_ndvi)
  have lo: "- 1 \<le> (nir - red) / (nir + red)"
    using pos assms by (simp add: pos_le_divide_eq)
  have hi: "(nir - red) / (nir + red) \<le> 1"
    using pos assms by (simp add: pos_divide_le_eq)
  show ?thesis using v lo hi by simp
qed

theorem ndvi_in_range_witness:
  "band_value (add_ndvi scene_late) ''NDVI'' 0 = Some (1 / 2)"
  using ndvi_in_range [of scene_late 0 3 1] by (simp add: scene_late_def)

subsection \<open>The loop of the time series\<close>

lemma process_images_step:
  "process_images svc g s e series count (i # rest) (ds, vs) calls =
     (if fails svc (length calls) then (Inl EEException, calls @ [DateInfo g s e i])
      else (case format_date (ee_get (toList series count) i) of
        Inl err \<Rightarrow> (Inl err, calls @ [DateInfo g s e i])
      | Inr d \<Rightarrow>
          (if fails svc (Suc (length calls))
           then (Inl EEException, calls @ [DateInfo g s e i, StatsInfo g s e i])
           else (case on_server (on_server (ee_get (toList series count) i)
                        (\<lambda>x. Inr (estimate_carbon_storage x)))
                      (\<lambda>x. reduceRegion_mean svc x g 30 1000000000) of
              Inl err \<Rightarrow> (Inl err, calls @ [DateInfo g s e i, StatsInfo g s e i])
            | Inr stats_dict \<Rightarrow>
                (case dict_get stats_dict ''NDVI'' of
                   Inl err \<Rightarrow> (Inl err, calls @ [DateInfo g s e i, StatsInfo g s e i])
                 | Inr v \<Rightarrow> process_images svc g s e series count rest (ds @ [d], vs @ [v])
                              (calls @ [DateInfo g s e i, StatsInfo g s e i]))))))"
  by (simp add: getInfo_def Let_def split: sum.splits)

lemma process_images_success:
  "process_images svc g s e series count idx (ds, vs) calls = (Inr (ds', vs'), calls')
   \<Longrightarrow> length ds' = length ds + length idx \<and> length vs' = length vs + length idx
       \<and> calls' = calls @ concat (map (\<lambda>i. [DateInfo g s e i, StatsInfo g s e i]) idx)
       \<and> (\<forall>j < 2 * length idx. \<not> fails svc (length calls + j))"
proof (induction idx arbitrary: ds vs calls)
  case Nil
  then show ?case by simp
next
  case (Cons i rest)
  let ?two = "[DateInfo g s e i, StatsInfo g s e i]"
  from Cons.prems obtain d v where
    up0: "\<not> fails svc (length calls)" and up1: "\<not> fails svc (Suc (length calls))"
    and rec: "process_images svc g s e series count rest (ds @ [d], vs @ [v]) (calls @ ?two)
                = (Inr (ds', vs'), calls')"
    unfolding process_images_step by (auto split: if_splits sum.splits)
  note ih = Cons.IH [OF rec]
  have no_fail: "\<not> fails svc (length calls + j)" if "j < 2 * length (i # rest)" for j
  proof -
    consider "j = 0" | "j = 1" | "2 \<le> j" by linarith
    then show ?thesis
    proof cases
      case 1 then show ?thesis using up0 by simp
    next
      case 2 then show ?thesis using up1 by simp
    next
      case 3
      then obtain k where k: "j = Suc (Suc k)"
        by (metis Suc_le_D numeral_2_eq_2 Suc_le_mono)
      then have "k < 2 * length rest" using that by simp
      with ih have "\<not> fails svc (length (calls @ ?two) + k)" by blast
      then show ?thesis by (simp add: k)
    qed
  qed
  show ?case using ih no_fail by simp
qed

lemma process_images_failure:
  "j < 2 * length idx \<Longrightarrow> fails svc (length calls + j)
   \<Longrightarrow> \<exists>err calls'. process_images svc g s e series count idx acc calls = (Inl err, calls')"
proof -
  assume j: "j < 2 * length idx" and f: "fails svc (length calls + j)"
  obtain r calls' where eq: "process_images svc g s e series count idx acc calls = (r, calls')"
    by (cases "process_images svc g s e series count idx acc calls") 
  show ?thesis
  proof (cases r)
    case (Inl err)
    then show ?thesis using eq by blast
  next
    case (Inr out)
    obtain ds' vs' where "out = (ds', vs')" by (cases out)
    moreover obtain ds vs where "acc = (ds, vs)" by (cases acc)
    ultimately have "\<forall>j < 2 * length idx. \<not> fails svc (length calls + j)"
      using process_images_success eq Inr by blast
    then show ?thesis using j f by blast
  qed
qed

lemma select_add_ndvi:
  "ee_select ''NDVI'' (add_ndvi sc) =
     \<lparr>time_start = Some (system_time_start sc),
      bands = [(''NDVI'', ee_divide (ee_subtract (SR_B5 sc) (SR_B4 sc)) (ee_add (SR_B5 sc) (SR_B4 sc)))]\<rparr>"
  by (simp add: ee_select_def add_ndvi_def Let_def)

lemma series_image:
  "img \<in> set (get_ndvi_time_series svc g s e)
   \<Longrightarrow> \<exists>t r. time_start img = Some t \<and> bands img = [(''NDVI'', r)]"
  by (auto simp: get_ndvi_time_series_def Let_def select_add_ndvi)

lemma format_date_image:
  "time_start img = Some t \<Longrightarrow> format_date (Inr img) = Inr (t div ms_per_day)"
  by (simp add: format_date_def)

lemma band_value_single:
  "bands img = [(n, r)] \<Longrightarrow> band_value img n = r"
  by (rule ext) (simp add: band_value_def)

lemma reduce_ndvi_image:
  "bands img = [(''NDVI'', r)] \<Longrightarrow>
   reduceRegion_mean svc (estimate_carbon_storage img) g scale cap =
     (if cap < length (grid svc g scale) then Inl EEException
      else Inr [(''NDVI'', weighted_mean (grid svc g scale)
                   (band_value (estimate_carbon_storage img) ''NDVI''))])"
proof -
  assume r: "bands img = [(''NDVI'', r)]"
  have b: "bands (estimate_carbon_storage img) = [(''NDVI'', \<lambda>p. map_option (\<lambda>x. x * 200) (r p))]"
    by (simp add: estimate_carbon_storage_def ee_multiply_def r)
  show ?thesis
    by (simp add: reduceRegion_mean_def Let_def b band_value_single [OF b])
qed

lemma process_images_run:
  assumes shape: "\<forall>img \<in> set series. \<exists>t r. time_start img = Some t \<and> bands img = [(''NDVI'', r)]"
    and cap: "length (grid svc g 30) \<le> 1000000000"
  shows "\<forall>i \<in> set idx. i < length series \<and> i < count
    \<Longrightarrow> \<forall>j < 2 * length idx. \<not> fails svc (length calls + j)
    \<Longrightarrow> process_images svc g s e series count idx (ds, vs) calls =
         (Inr (ds @ map (\<lambda>i. the (time_start (series ! i)) div ms_per_day) idx,
               vs @ map (\<lambda>i. weighted_mean (grid svc g 30)
                           (band_value (estimate_carbon_storage (series ! i)) ''NDVI'')) idx),
          calls @ concat (map (\<lambda>i. [DateInfo g s e i, StatsInfo g s e i]) idx))"
proof (induction idx arbitrary: ds vs calls)
  case Nil
  then show ?case by simp
next
  case (Cons i rest)
  let ?img = "series ! i"
  let ?two = "[DateInfo g s e i, StatsInfo g s e i]"
  have i: "i < length series" "i < count" using Cons.prems(1) by simp_all
  then have mem: "?img \<in> set series" by simp
  then obtain t r where t: "time_start ?img = Some t" and r: "bands ?img = [(''NDVI'', r)]"
    using shape by blast
  have get: "ee_get (toList series count) i = Inr ?img"
    using i by (simp add: ee_get_def toList_def)
  have up0: "\<not> fails svc (length calls)" using Cons.prems(2) [rule_format, of 0] by simp
  have up1: "\<not> fails svc (Suc (length calls))" using Cons.prems(2) [rule_format, of 1] by simp
  have rest_idx: "\<forall>i \<in> set rest. i < length series \<and> i < count" using Cons.prems(1) by simp
  have rest_up: "\<forall>j < 2 * length rest. \<not> fails svc (length (calls @ ?two) + j)"
  proof (intro allI impI)
    fix j assume "j < 2 * length rest"
    then have "Suc (Suc j) < 2 * length (i # rest)" by simp
    then have "\<not> fails svc (length calls + Suc (Suc j))" using Cons.prems(2) by blast
    then show "\<not> fails svc (length (calls @ ?two) + j)" by simp
  qed
  have step: "process_images svc g s e series count (i # rest) (ds, vs) calls =
      process_images svc g s e series count rest
        (ds @ [t div ms_per_day],
         vs @ [weighted_mean (grid svc g 30) (band_value (estimate_carbon_storage ?img) ''NDVI'')])
        (calls @ ?two)"
    unfolding process_images_step
    using up0 up1 cap
    by (simp add: get format_date_image [OF t] on_server_def reduce_ndvi_image [OF r] dict_get_def)
  show ?case
    unfolding step Cons.IH [OF rest_idx rest_up] by (simp add: t)
qed

lemma process_images_cap:
  assumes shape: "\<forall>img \<in> set series. \<exists>t r. time_start img = Some t \<and> bands img = [(''NDVI'', r)]"
    and ok: "process_images svc g s e series count (i # rest) (ds, vs) calls = (Inr out, calls')"
    and i: "i < length series" "i < count"
  shows "length (grid svc g 30) \<le> 1000000000"
proof (rule ccontr)
  assume big: "\<not> length (grid svc g 30) \<le> 1000000000"
  from i have mem: "series ! i \<in> set series" by simp
  then obtain t r where t: "time_start (series ! i) = Some t" and r: "bands (series ! i) = [(''NDVI'', r)]"
    using shape by blast
  have get: "ee_get (toList series count) i = Inr (series ! i)"
    using i by (simp add: ee_get_def toList_def)
  have "\<exists>err c. process_images svc g s e series count (i # rest) (ds, vs) calls = (Inl err, c)"
    unfolding process_images_step using big
    by (simp add: get format_date_image [OF t] on_server_def reduce_ndvi_image [OF r])
  then show False using ok by simp
qed

lemma create_time_series_data_success:
  assumes "create_time_series_data svc g s e calls = (Inr df, calls')"
  shows "length (Date df) = length (get_ndvi_time_series svc g s e)
       \<and> length (Carbon_Storage df) = length (get_ndvi_time_series svc g s e)
       \<and> calls' = calls @ SizeInfo g s e
            # concat (map (\<lambda>i. [DateInfo g s e i, StatsInfo g s e i])
                [0..<length (get_ndvi_time_series svc g s e)])
       \<and> (\<forall>j \<le> 2 * length (get_ndvi_time_series svc g s e). \<not> fails svc (length calls + j))"
proof -
  let ?series = "get_ndvi_time_series svc g s e"
  let ?n = "length ?series"
  from assms obtain ds vs where
    up: "\<not> fails svc (length calls)"
    and loop: "process_images svc g s e ?series ?n [0..<?n] ([], []) (calls @ [SizeInfo g s e])
               = (Inr (ds, vs), calls')"
    and df: "df = \<lparr>Date = ds, Carbon_Storage = vs\<rparr>"
    unfolding create_time_series_data_def Let_def getInfo_def
    by (auto split: if_splits sum.splits prod.splits)
  note inv = process_images_success [OF loop]
  have no_fail: "\<not> fails svc (length calls + j)" if "j \<le> 2 * ?n" for j
  proof (cases j)
    case 0
    then show ?thesis using up by simp
  next
    case (Suc k)
    then have "k < 2 * length [0..<?n]" using that by simp
    with inv have "\<not> fails svc (length (calls @ [SizeInfo g s e]) + k)" by blast
    then show ?thesis using Suc by simp
  qed
  show ?thesis using inv no_fail by (simp add: df)
qed

lemma create_time_series_data_run:
  assumes up: "\<forall>j \<le> 2 * length (get_ndvi_time_series svc g s e). \<not> fails svc (length calls + j)"
    and cap: "length (grid svc g 30) \<le> 1000000000"
  shows "create_time_series_data svc g s e calls =
     (Inr \<lparr>Date = map (\<lambda>img. the (time_start img) div ms_per_day) (get_ndvi_time_series svc g s e),
           Carbon_Storage = map (\<lambda>img. weighted_mean (grid svc g 30)
                (band_value (estimate_carbon_storage img) ''NDVI'')) (get_ndvi_time_series svc g s e)\<rparr>,
      calls @ SizeInfo g s e
        # concat (map (\<lambda>i. [DateInfo g s e i, StatsInfo g s e i])
            [0..<length (get_ndvi_time_series svc g s e)]))"
proof -
  let ?series = "get_ndvi_time_series svc g s e"
  let ?n = "length ?series"
  have shape: "\<forall>img \<in> set ?series. \<exists>t r. time_start img = Some t \<and> bands img = [(''NDVI'', r)]"
    using series_image by blast
  have up0: "\<not> fails svc (length calls)" using up by (metis add.right_neutral le0)
  have idx: "\<forall>i \<in> set [0..<?n]. i < ?n \<and> i < ?n" by simp
  have up': "\<forall>j < 2 * length [0..<?n]. \<not> fails svc (length (calls @ [SizeInfo g s e]) + j)"
  proof (intro allI impI)
    fix j assume "j < 2 * length [0..<?n]"
    then have "Suc j \<le> 2 * ?n" by simp
    then have "\<not> fails svc (length calls + Suc j)" using up by blast
    then show "\<not> fails svc (length (calls @ [SizeInfo g s e]) + j)" by simp
  qed
  have m1: "map (\<lambda>i. f (?series ! i)) [0..<?n] = map f ?series" for f :: "ee_image \<Rightarrow> 'b"
  proof -
    have "map (\<lambda>i. f (?series ! i)) [0..<?n] = map f (map ((!) ?series) [0..<?n])"
      by (simp only: map_map comp_def)
    then show ?thesis by (simp only: map_nth)
  qed
  have size: "getInfo svc (SizeInfo g s e) (Inr ?n) calls = (Inr ?n, calls @ [SizeInfo g s e])"
    using up0 by (simp add: getInfo_def)
  note loop = process_images_run [OF shape cap idx up', of s e "[]" "[]"]
  show ?thesis
    unfolding create_time_series_data_def Let_def size
    by (simp only: loop prod.case sum.case append_Nil append_Cons append_assoc
        m1 [of "\<lambda>img. the (time_start img) div ms_per_day"]
        m1 [of "\<lambda>img. weighted_mean (grid svc g 30)
                  (band_value (estimate_carbon_storage img) ''NDVI'')"])
qed

lemma create_time_series_data_failure:
  assumes "j \<le> 2 * length (get_ndvi_time_series svc g s e)" and "fails svc (length calls + j)"
  shows "\<exists>err calls'. create_time_series_data svc g s e calls = (Inl err, calls')"
proof -
  obtain r calls' where eq: "create_time_series_data svc g s e calls = (r, calls')"
    by (cases "create_time_series_data svc g s e calls")
  show ?thesis
  proof (cases r)
    case (Inl err)
    then show ?thesis using eq by blast
  next
    case (Inr df)
    then show ?thesis using create_time_series_data_success [of svc g s e calls df calls'] eq assms
      by blast
  qed
qed

lemma create_time_series_data_empty:
  assumes "get_ndvi_time_series svc g s e = []" and "\<not> fails svc (length calls)"
  shows "create_time_series_data svc g s e calls
         = (Inr \<lparr>Date = [], Carbon_Storage = []\<rparr>, calls @ [SizeInfo g s e])"
  using assms by (simp add: create_time_series_data_def getInfo_def Let_def)

lemma create_time_series_data_cap:
  assumes n: "get_ndvi_time_series svc g s e \<noteq> []"
    and big: "1000000000 < length (grid svc g 30)"
  shows "\<exists>err calls'. create_time_series_data svc g s e calls = (Inl err, calls')"
proof -
  let ?series = "get_ndvi_time_series svc g s e"
  let ?n = "length ?series"
  obtain r calls' where eq: "create_time_series_data svc g s e calls = (r, calls')"
    by (cases "create_time_series_data svc g s e calls")
  show ?thesis
  proof (cases r)
    case (Inl err)
    then show ?thesis using eq by blast
  next
    case (Inr df)
    from eq [unfolded Inr] obtain ds vs where
      loop: "process_images svc g s e ?series ?n [0..<?n] ([], []) (calls @ [SizeInfo g s e])
               = (Inr (ds, vs), calls')"
      unfolding create_time_series_data_def Let_def getInfo_def
      by (auto split: if_splits sum.splits prod.splits)
    have pos: "0 < ?n" using n by simp
    then have idx: "[0..<?n] = 0 # [1..<?n]" by (simp add: upt_conv_Cons)
    have shape: "\<forall>img \<in> set ?series. \<exists>t r. time_start img = Some t \<and> bands img = [(''NDVI'', r)]"
      using series_image by blast
    have "length (grid svc g 30) \<le> 1000000000"
      using process_images_cap [OF shape loop [unfolded idx] pos pos] .
    then show ?thesis using big by simp
  qed
qed

lemma demo_collection:
  "get_ndvi_time_series demo g 0 30
     = [ee_select ''NDVI'' (add_ndvi scene_late), ee_select ''NDVI'' (add_ndvi scene_early)]"
  by (simp add: get_ndvi_time_series_def Let_def sort_CLOUD_COVER_def filterDate_def
      filterBounds_def demo_def scene_early_def scene_late_def ms_per_day_def)

lemma demo_collection_empty: "get_ndvi_time_series demo g 0 5 = []"
  by (simp add: get_ndvi_time_series_def Let_def sort_CLOUD_COVER_def filterDate_def
      filterBounds_def demo_def scene_early_def scene_late_def ms_per_day_def)

lemma demo_up: "\<not> fails demo n" and demo_grid: "grid demo g sc = [(0, 1), (1, 1)]"
  by (simp_all add: demo_def)

lemma demo_carbon_late:
  "band_value (estimate_carbon_storage (ee_select ''NDVI'' (add_ndvi scene_late))) ''NDVI''
     = (\<lambda>p. Some 100)"
proof (rule ext)
  fix p
  have "band_value (ee_select ''NDVI'' (add_ndvi scene_late)) ''NDVI'' p = Some (1 / 2)"
    by (simp add: band_value_def select_add_ndvi ee_divide_def ee_subtract_def ee_add_def
        band_op_def scene_late_def)
  then show "band_value (estimate_carbon_storage (ee_select ''NDVI'' (add_ndvi scene_late))) ''NDVI'' p
             = Some 100"
    by (simp add: estimate_carbon_storage_def band_value_multiply)
qed

lemma demo_carbon_early:
  "band_value (estimate_carbon_storage (ee_select ''NDVI'' (add_ndvi scene_early))) ''NDVI''
     = (\<lambda>p. if p = 0 then Some 200 else None)"
proof (rule ext)
  fix p
  have "band_value (ee_select ''NDVI'' (add_ndvi scene_early)) ''NDVI'' p
        = (if p = 0 then Some 1 else None)"
    by (simp add: band_value_def select_add_ndvi ee_divide_def ee_subtract_def ee_add_def
        band_op_def scene_early_def)
  then show "band_value (estimate_carbon_storage (ee_select ''NDVI'' (add_ndvi scene_early))) ''NDVI'' p
             = (if p = 0 then Some 200 else None)"
    by (simp add: estimate_carbon_storage_def band_value_multiply)
qed

lemma demo_values:
  "weighted_mean [(0, 1), (1, 1)] (\<lambda>p. Some 100) = Some 100"
  "weighted_mean [(0, 1), (1, 1)] (\<lambda>p. if p = 0 then Some 200 else None) = Some 200"
  by (simp_all add: weighted_mean_def)

lemma demo_time_series:
  "create_time_series_data demo roi 0 30 calls =
     (Inr \<lparr>Date = [20, 10], Carbon_Storage = [Some 100, Some 200]\<rparr>,
      calls @ [SizeInfo roi 0 30, DateInfo roi 0 30 0, StatsInfo roi 0 30 0,
               DateInfo roi 0 30 1, StatsInfo roi 0 30 1])"
proof -
  have up: "\<forall>j \<le> 2 * length (get_ndvi_time_series demo roi 0 30). \<not> fails demo (length calls + j)"
    by (simp add: demo_up)
  have cap: "length (grid demo roi 30) \<le> 1000000000" by (simp add: demo_grid)
  have two: "[0..<2] = [0, 1]" by (simp add: upt_rec)
  have dates: "the (time_start (ee_select ''NDVI'' (add_ndvi scene_late))) div ms_per_day = 20"
    "the (time_start (ee_select ''NDVI'' (add_ndvi scene_early))) div ms_per_day = 10"
    by (simp_all add: select_add_ndvi scene_late_def scene_early_def ms_per_day_def)
  show ?thesis
    unfolding create_time_series_data_run [OF up cap] demo_collection demo_grid
    by (simp only: list.map demo_carbon_late demo_carbon_early demo_values dates) (simp add: two)
qed

subsection \<open>The time series\<close>

text \<open>
  C3. When \<open>create_time_series_data\<close> returns a data frame, both of its columns have as
  many entries as the query returns images for the window. It does return one whenever
  the service answers every round trip and the region is within the pixel limit. For a
  window without images it returns the empty data frame, not an error, as soon as the
  one round trip it makes (the size of the collection) is answered.
\<close>

theorem time_series_length:
  "(create_time_series_data svc g s e calls = (Inr df, calls')
      \<longrightarrow> length (Date df) = length (get_ndvi_time_series svc g s e)
        \<and> length (Carbon_Storage df) = length (get_ndvi_time_series svc g s e))
   \<and> ((\<forall>j \<le> 2 * length (get_ndvi_time_series svc g s e). \<not> fails svc (length calls + j))
        \<and> length (grid svc g 30) \<le> 1000000000
      \<longrightarrow> (\<exists>df'. fst (create_time_series_data svc g s e calls) = Inr df'
             \<and> length (Date df') = length (get_ndvi_time_series svc g s e)
             \<and> length (Carbon_Storage df') = length (get_ndvi_time_series svc g s e)))
   \<and> (get_ndvi_time_series svc g s e = [] \<and> \<not> fails svc (length calls)
      \<longrightarrow> fst (create_time_series_data svc g s e calls) = Inr \<lparr>Date = [], Carbon_Storage = []\<rparr>)"
proof (intro conjI impI)
  assume "create_time_series_data svc g s e calls = (Inr df, calls')"
  from create_time_series_data_success [OF this]
  show "length (Date df) = length (get_ndvi_time_series svc g s e)"
    and "length (Carbon_Storage df) = length (get_ndvi_time_series svc g s e)"
    by simp_all
next
  assume a: "(\<forall>j \<le> 2 * length (get_ndvi_time_series svc g s e). \<not> fails svc (length calls + j))
        \<and> length (grid svc g 30) \<le> 1000000000"
  then have up: "\<forall>j \<le> 2 * length (get_ndvi_time_series svc g s e). \<not> fails svc (length calls + j)"
    and cap: "length (grid svc g 30) \<le> 1000000000" by simp_all
  show "\<exists>df'. fst (create_time_series_data svc g s e calls) = Inr df'
             \<and> length (Date df') = length (get_ndvi_time_series svc g s e)
             \<and> length (Carbon_Storage df') = length (get_ndvi_time_series svc g s e)"
    unfolding create_time_series_data_run [OF up cap] by simp
next
  assume "get_ndvi_time_series svc g s e = [] \<and> \<not> fails svc (length calls)"
  then show "fst (create_time_series_data svc g s e calls) = Inr \<lparr>Date = [], Carbon_Storage = []\<rparr>"
    by (simp add: create_time_series_data_empty)
qed

theorem time_series_length_witness:
  "length (get_ndvi_time_series demo roi 0 30) = 2
   \<and> (\<exists>df. fst (create_time_series_data demo roi 0 30 []) = Inr df \<and> length (Date df) = 2
          \<and> length (Carbon_Storage df) = 2)
   \<and> get_ndvi_time_series demo roi 0 5 = []
   \<and> fst (create_time_series_data demo roi 0 5 []) = Inr \<lparr>Date = [], Carbon_Storage = []\<rparr>"
proof -
  have n: "length (get_ndvi_time_series demo roi 0 30) = 2"
    by (simp add: demo_collection)
  have a: "\<exists>df. fst (create_time_series_data demo roi 0 30 []) = Inr df
             \<and> length (Date df) = length (get_ndvi_time_series demo roi 0 30)
             \<and> length (Carbon_Storage df) = length (get_ndvi_time_series demo roi 0 30)"
    using time_series_length [of demo roi 0 30 "[]"] by (simp add: demo_up demo_grid)
  have b: "fst (create_time_series_data demo roi 0 5 []) = Inr \<lparr>Date = [], Carbon_Storage = []\<rparr>"
    using time_series_length [of demo roi 0 5 "[]"] by (simp add: demo_up demo_collection_empty)
  show ?thesis using a b n demo_collection_empty by simp
qed

text \<open>
  C5. A call of \<open>create_time_series_data\<close> that returns has made, after the one round trip
  for the size of the collection, exactly two round trips per image, image by image in
  the order of the collection: first the capture date, then the reduced carbon estimate.
  When the reduction of some image fails (round trip \<open>2 * i + 2\<close> of the call, for image
  \<open>i\<close>), or any other round trip of the call, or the service rejects the reduction
  because the region exceeds the pixel limit, the call ends in an error and returns no
  data frame.
\<close>

theorem time_series_round_trips:
  "(create_time_series_data svc g s e calls = (Inr df, calls')
      \<longrightarrow> calls' = calls @ SizeInfo g s e
              # concat (map (\<lambda>i. [DateInfo g s e i, StatsInfo g s e i])
                  [0..<length (get_ndvi_time_series svc g s e)])
        \<and> length calls' = length calls + 1 + 2 * length (get_ndvi_time_series svc g s e))
   \<and> (i < length (get_ndvi_time_series svc g s e) \<and> fails svc (length calls + 2 * i + 2)
      \<longrightarrow> (\<exists>err calls'. create_time_series_data svc g s e calls = (Inl err, calls')))
   \<and> (j \<le> 2 * length (get_ndvi_time_series svc g s e) \<and> fails svc (length calls + j)
      \<longrightarrow> (\<exists>err calls'. create_time_series_data svc g s e calls = (Inl err, calls')))
   \<and> (get_ndvi_time_series svc g s e \<noteq> [] \<and> 1000000000 < length (grid svc g 30)
      \<longrightarrow> (\<exists>err calls'. create_time_series_data svc g s e calls = (Inl err, calls')))"
proof (intro conjI impI)
  assume ok: "create_time_series_data svc g s e calls = (Inr df, calls')"
  from create_time_series_data_success [OF ok]
  show c: "calls' = calls @ SizeInfo g s e
              # concat (map (\<lambda>i. [DateInfo g s e i, StatsInfo g s e i])
                  [0..<length (get_ndvi_time_series svc g s e)])"
    by simp
  have "length (concat (map (\<lambda>i. [DateInfo g s e i, StatsInfo g s e i]) idx)) = 2 * length idx"
    for idx :: "nat list"
    by (induction idx) simp_all
  then show "length calls' = length calls + 1 + 2 * length (get_ndvi_time_series svc g s e)"
    unfolding c by simp
next
  assume "i < length (get_ndvi_time_series svc g s e) \<and> fails svc (length calls + 2 * i + 2)"
  then have "2 * i + 2 \<le> 2 * length (get_ndvi_time_series svc g s e)"
    and "fails svc (length calls + (2 * i + 2))"
    by (simp_all add: add.assoc)
  then show "\<exists>err calls'. create_time_series_data svc g s e calls = (Inl err, calls')"
    by (rule create_time_series_data_failure)
next
  assume "j \<le> 2 * length (get_ndvi_time_series svc g s e) \<and> fails svc (length calls + j)"
  then show "\<exists>err calls'. create_time_series_data svc g s e calls = (Inl err, calls')"
    using create_time_series_data_failure by blast
next
  assume "get_ndvi_time_series svc g s e \<noteq> [] \<and> 1000000000 < length (grid svc g 30)"
  then show "\<exists>err calls'. create_time_series_data svc g s e calls = (Inl err, calls')"
    using create_time_series_data_cap by blast
qed

lemma get_ndvi_time_series_fails:
  "get_ndvi_time_series (svc\<lparr>fails := f\<rparr>) g s e = get_ndvi_time_series svc g s e"
  by (simp add: get_ndvi_time_series_def filterBounds_def)

theorem time_series_round_trips_witness:
  "snd (create_time_series_data demo roi 0 30 [])
     = [SizeInfo roi 0 30, DateInfo roi 0 30 0, StatsInfo roi 0 30 0,
        DateInfo roi 0 30 1, StatsInfo roi 0 30 1]
   \<and> (\<exists>err calls'. create_time_series_data demo_outage roi 0 30 []
                       = (Inl err, calls'))"
proof -
  have two: "[0..<2] = [0, 1]" by (simp add: upt_rec)
  have a: "snd (create_time_series_data demo roi 0 30 [])
     = [SizeInfo roi 0 30, DateInfo roi 0 30 0, StatsInfo roi 0 30 0,
        DateInfo roi 0 30 1, StatsInfo roi 0 30 1]"
    using time_series_round_trips [of demo roi 0 30 "[]" "\<lparr>Date = [20, 10], Carbon_Storage = [Some 100, Some 200]\<rparr>"
        "snd (create_time_series_data demo roi 0 30 [])"]
    by (simp add: demo_time_series demo_collection two)
  have b: "\<exists>err calls'. create_time_series_data demo_outage roi 0 30 []
                       = (Inl err, calls')"
    using time_series_round_trips [of demo_outage roi 0 30 "[]" _ _ 1]
    by (simp add: demo_outage_def get_ndvi_time_series_fails demo_collection)
  show ?thesis using a b by simp
qed

lemma demo_ndvi_late:
  "band_value (ee_select ''NDVI'' (add_ndvi scene_late)) ''NDVI'' p = Some (1 / 2)"
  by (simp add: band_value_def select_add_ndvi ee_divide_def ee_subtract_def ee_add_def
      band_op_def scene_late_def)

lemma demo_ndvi_early:
  "band_value (ee_select ''NDVI'' (add_ndvi scene_early)) ''NDVI'' p
     = (if p = 0 then Some 1 else None)"
  by (simp add: band_value_def select_add_ndvi ee_divide_def ee_subtract_def ee_add_def
      band_op_def scene_early_def)

lemma bands_select_add_ndvi:
  "bands (ee_select ''NDVI'' (add_ndvi sc))
     = [(''NDVI'', ee_divide (ee_subtract (SR_B5 sc) (SR_B4 sc)) (ee_add (SR_B5 sc) (SR_B4 sc)))]"
  by (simp add: select_add_ndvi)

lemma demo_mean_bands:
  "bands (estimate_carbon_storage (ee_mean (get_ndvi_time_series demo g 0 30)))
     = [(''NDVI'', \<lambda>p. if p = 0 then Some 150 else Some 100)]"
proof -
  have "bands (ee_mean (get_ndvi_time_series demo g 0 30))
        = [(''NDVI'', \<lambda>p. mean_valid [Some (1 / 2), if p = 0 then Some 1 else None])]"
    unfolding demo_collection ee_mean_def
    by (simp add: bands_select_add_ndvi demo_ndvi_late demo_ndvi_early)
  then have "bands (estimate_carbon_storage (ee_mean (get_ndvi_time_series demo g 0 30)))
        = [(''NDVI'', \<lambda>p. map_option (\<lambda>x. x * 200)
              (mean_valid [Some (1 / 2), if p = 0 then Some 1 else None]))]"
    by (simp add: estimate_carbon_storage_def ee_multiply_def)
  moreover have "(\<lambda>p::nat. map_option (\<lambda>x. x * 200)
              (mean_valid [Some (1 / 2), if p = 0 then Some 1 else None]))
        = (\<lambda>p. if p = 0 then Some 150 else Some 100)"
    by (rule ext) (simp add: mean_valid_def)
  ultimately show ?thesis by simp
qed

lemma demo_area_statistics:
  "get_area_statistics demo g 0 30 = Inr [(''NDVI'', Some 125)]"
  by (simp add: get_area_statistics_def Let_def reduceRegion_mean_def demo_grid demo_mean_bands
      weighted_mean_def)

subsection \<open>The round trips of a run\<close>

lemma carbon_storage_map_cases:
  "carbon_storage_map svc s e calls =
     (if fails svc (length calls) then ([MapError EEException], calls @ [MapLayer roi s e])
      else if fails svc (Suc (length calls))
        then ([MapError EEException], calls @ [MapLayer roi s e, RoiLayer roi])
        else ([MapShown], calls @ [MapLayer roi s e, RoiLayer roi]))"
  by (simp add: carbon_storage_map_def getInfo_def Let_def)

lemma carbon_storage_statistics_calls:
  "\<exists>shown Z. carbon_storage_statistics svc s e calls = (shown, calls @ Z)
     \<and> (Z = [AreaStatsInfo roi s e] \<or> Z = [AreaStatsInfo roi s e, RoiArea roi])"
  by (simp add: carbon_storage_statistics_def getInfo_def Let_def split: sum.splits option.splits)

lemma process_images_calls:
  "\<exists>k. snd (process_images svc g s e series count idx (ds, vs) calls)
        = calls @ take k (concat (map (\<lambda>i. [DateInfo g s e i, StatsInfo g s e i]) idx))"
proof (induction idx arbitrary: ds vs calls)
  case Nil
  then show ?case by simp
next
  case (Cons i rest)
  let ?X = "concat (map (\<lambda>i. [DateInfo g s e i, StatsInfo g s e i]) rest)"
  let ?two = "[DateInfo g s e i, StatsInfo g s e i]"
  let ?r = "snd (process_images svc g s e series count (i # rest) (ds, vs) calls)"
  have cases: "?r = calls @ [DateInfo g s e i] \<or> ?r = calls @ ?two
      \<or> (\<exists>d v. ?r = snd (process_images svc g s e series count rest (ds @ [d], vs @ [v]) (calls @ ?two)))"
    unfolding process_images_step by (auto split: sum.splits)
  then consider (a) "?r = calls @ [DateInfo g s e i]" | (b) "?r = calls @ ?two"
    | (c) d v where "?r = snd (process_images svc g s e series count rest (ds @ [d], vs @ [v]) (calls @ ?two))"
    by blast
  then show ?case
  proof cases
    case a
    then have "?r = calls @ take 1 (concat (map (\<lambda>i. [DateInfo g s e i, StatsInfo g s e i]) (i # rest)))"
      by simp
    then show ?thesis by blast
  next
    case b
    then have "?r = calls @ take 2 (concat (map (\<lambda>i. [DateInfo g s e i, StatsInfo g s e i]) (i # rest)))"
      by simp
    then show ?thesis by blast
  next
    case c
    from Cons.IH [of "ds @ [d]" "vs @ [v]" "calls @ ?two"] obtain k where
      "snd (process_images svc g s e series count rest (ds @ [d], vs @ [v]) (calls @ ?two))
         = (calls @ ?two) @ take k ?X" by blast
    with c have "?r = calls @ take (Suc (Suc k)) (concat (map (\<lambda>i. [DateInfo g s e i, StatsInfo g s e i]) (i # rest)))"
      by simp
    then show ?thesis by blast
  qed
qed

lemma create_time_series_data_calls:
  "\<exists>k. snd (create_time_series_data svc g s e calls)
        = calls @ SizeInfo g s e # take k (concat (map (\<lambda>i. [DateInfo g s e i, StatsInfo g s e i])
              [0..<length (get_ndvi_time_series svc g s e)]))"
proof (cases "fails svc (length calls)")
  case True
  then have "snd (create_time_series_data svc g s e calls) = calls @ SizeInfo g s e # take 0
      (concat (map (\<lambda>i. [DateInfo g s e i, StatsInfo g s e i]) [0..<length (get_ndvi_time_series svc g s e)]))"
    by (simp add: create_time_series_data_def getInfo_def Let_def)
  then show ?thesis by blast
next
  case False
  let ?series = "get_ndvi_time_series svc g s e"
  let ?n = "length ?series"
  from process_images_calls [of svc g s e ?series ?n "[0..<?n]" "[]" "[]" "calls @ [SizeInfo g s e]"]
  obtain k where k: "snd (process_images svc g s e ?series ?n [0..<?n] ([], []) (calls @ [SizeInfo g s e]))
        = (calls @ [SizeInfo g s e]) @ take k (concat (map (\<lambda>i. [DateInfo g s e i, StatsInfo g s e i]) [0..<?n]))"
    by blast
  have "snd (create_time_series_data svc g s e calls)
        = snd (process_images svc g s e ?series ?n [0..<?n] ([], []) (calls @ [SizeInfo g s e]))"
    using False
    by (simp add: create_time_series_data_def getInfo_def Let_def split: sum.splits prod.splits)
  then show ?thesis using k by auto
qed

lemma image_trips_set:
  "rq \<in> set (concat (map (\<lambda>i. [DateInfo g s e i, StatsInfo g s e i]) idx))
   \<Longrightarrow> \<exists>i \<in> set idx. rq = DateInfo g s e i \<or> rq = StatsInfo g s e i"
  by auto

lemma image_trips_distinct:
  "distinct idx \<Longrightarrow> distinct (concat (map (\<lambda>i. [DateInfo g s e i, StatsInfo g s e i]) idx))"
  by (induction idx) auto

lemma carbon_storage_over_time_calls:
  "\<exists>shown Z. carbon_storage_over_time svc s e calls = ([shown], calls @ SizeInfo roi s e # Z)
     \<and> distinct Z \<and> (\<forall>rq \<in> set Z. \<exists>i. rq = DateInfo roi s e i \<or> rq = StatsInfo roi s e i)"
proof -
  let ?X = "concat (map (\<lambda>i. [DateInfo roi s e i, StatsInfo roi s e i])
              [0..<length (get_ndvi_time_series svc roi s e)])"
  obtain k where k: "snd (create_time_series_data svc roi s e calls) = calls @ SizeInfo roi s e # take k ?X"
    using create_time_series_data_calls by blast
  have d: "distinct (take k ?X)"
    by (rule distinct_take) (simp add: image_trips_distinct)
  have m: "\<forall>rq \<in> set (take k ?X). \<exists>i. rq = DateInfo roi s e i \<or> rq = StatsInfo roi s e i"
    using image_trips_set in_set_takeD by fast
  obtain r c where rc: "create_time_series_data svc roi s e calls = (r, c)"
    by (cases "create_time_series_data svc roi s e calls")
  then have c: "c = calls @ SizeInfo roi s e # take k ?X" using k by simp
  have "\<exists>shown. carbon_storage_over_time svc s e calls = ([shown], c)"
    by (cases r) (simp_all add: carbon_storage_over_time_def rc)
  then show ?thesis using c d m by blast
qed

lemma main_content_calls:
  "\<exists>shown Z. main_content svc s e calls = (shown @ [Footer], calls @ MapLayer roi s e # Z)
     \<and> distinct (MapLayer roi s e # Z)
     \<and> (\<forall>rq \<in> set Z. window rq = Some (s, e) \<or> rq = RoiLayer roi \<or> rq = RoiArea roi)
     \<and> Initialize \<notin> set Z \<and> Authenticate \<notin> set Z"
proof -
  have "\<exists>sh1 Z1. carbon_storage_map svc s e calls = (sh1, calls @ MapLayer roi s e # Z1)
          \<and> (Z1 = [] \<or> Z1 = [RoiLayer roi])"
    by (simp add: carbon_storage_map_cases)
  then obtain sh1 Z1 where v1: "carbon_storage_map svc s e calls = (sh1, calls @ MapLayer roi s e # Z1)"
    and z1: "Z1 = [] \<or> Z1 = [RoiLayer roi]"
    by blast
  let ?c1 = "calls @ MapLayer roi s e # Z1"
  obtain sh2 Z2 where v2: "carbon_storage_statistics svc s e ?c1 = (sh2, ?c1 @ Z2)"
    and z2: "Z2 = [AreaStatsInfo roi s e] \<or> Z2 = [AreaStatsInfo roi s e, RoiArea roi]"
    using carbon_storage_statistics_calls by blast
  let ?c2 = "?c1 @ Z2"
  obtain sh3 Z3 where v3: "carbon_storage_over_time svc s e ?c2 = ([sh3], ?c2 @ SizeInfo roi s e # Z3)"
    and d3: "distinct Z3"
    and m3: "\<forall>rq \<in> set Z3. \<exists>i. rq = DateInfo roi s e i \<or> rq = StatsInfo roi s e i"
    using carbon_storage_over_time_calls by blast
  let ?Z = "Z1 @ Z2 @ SizeInfo roi s e # Z3"
  have eq: "main_content svc s e calls = ((sh1 @ sh2 @ [sh3]) @ [Footer], calls @ MapLayer roi s e # ?Z)"
    using v2 v3 by (simp add: main_content_def v1)
  have dist: "distinct (MapLayer roi s e # ?Z)"
    using z1 z2 d3 m3 by auto
  have win: "\<forall>rq \<in> set ?Z. window rq = Some (s, e) \<or> rq = RoiLayer roi \<or> rq = RoiArea roi"
    using z1 z2 m3 by auto
  have no_init: "Initialize \<notin> set ?Z \<and> Authenticate \<notin> set ?Z"
    using z1 z2 m3 by auto
  show ?thesis using eq dist win no_init by blast
qed

lemma init_processor_cases:
  "init_processor svc cached [Initialize] =
     (if cached then (Inr (), [Initialize])
      else if \<not> fails svc 1 then (Inr (), [Initialize, Initialize])
      else if fails svc 2 then (Inl EEException, [Initialize, Initialize, Authenticate])
      else if fails svc 3 then (Inl EEException, [Initialize, Initialize, Authenticate, Initialize])
      else (Inr (), [Initialize, Initialize, Authenticate, Initialize]))"
  by (simp add: init_processor_def CarbonSequestrationProcessor_init_def getInfo_def
      numeral_2_eq_2 numeral_3_eq_3)

lemma app_two_dates:
  "app svc cached [s, e] =
     (if fails svc 0 then ([SetupInstructions], [Initialize])
      else (case init_processor svc cached [Initialize] of
              (Inl err, calls2) \<Rightarrow> ([InitError, InitInfo], calls2)
            | (Inr u, calls2) \<Rightarrow> main_content svc s e calls2))"
  by (simp add: app_def initialize_earth_engine_def getInfo_def tuple_get_def
      split: prod.splits sum.splits)

lemma app_startup_failure:
  "fails svc 0 \<Longrightarrow> app svc cached date_range = ([SetupInstructions], [Initialize])"
  by (simp add: app_def initialize_earth_engine_def getInfo_def)

lemma app_processor_failure:
  "\<not> fails svc 0 \<Longrightarrow> \<not> cached \<Longrightarrow> fails svc 1 \<Longrightarrow> fails svc 2 \<or> fails svc 3
   \<Longrightarrow> fst (app svc cached date_range) = [InitError, InitInfo]"
  by (auto simp: app_def initialize_earth_engine_def getInfo_def init_processor_cases)

lemma init_calls:
  "init_processor svc cached [Initialize] = (Inr u, calls2)
   \<Longrightarrow> set calls2 \<subseteq> {Initialize, Authenticate}"
  by (auto simp: init_processor_cases split: if_splits)

lemma init_failed_calls:
  "init_processor svc cached [Initialize] = (Inl err, calls2)
   \<Longrightarrow> set calls2 \<subseteq> {Initialize, Authenticate}"
  by (auto simp: init_processor_cases split: if_splits)

subsection \<open>The date range\<close>

lemma demo_collection_reversed: "get_ndvi_time_series demo g 30 0 = []"
  by (simp add: get_ndvi_time_series_def Let_def sort_CLOUD_COVER_def filterDate_def
      filterBounds_def demo_def scene_early_def scene_late_def ms_per_day_def)

lemma demo_area_statistics_reversed: "get_area_statistics demo g 30 0 = Inr []"
  by (simp add: get_area_statistics_def Let_def demo_collection_reversed ee_mean_def
      estimate_carbon_storage_def ee_multiply_def reduceRegion_mean_def demo_grid)

lemma demo_app_reversed:
  "app demo False [30, 0] =
     ([MapShown, StatsError KeyError, LineChart \<lparr>Date = [], Carbon_Storage = []\<rparr>, Footer],
      [Initialize, Initialize, MapLayer roi 30 0, RoiLayer roi, AreaStatsInfo roi 30 0,
       SizeInfo roi 30 0])"
  by (simp add: app_two_dates init_processor_cases demo_up main_content_def
      carbon_storage_map_cases carbon_storage_statistics_def carbon_storage_over_time_def
      getInfo_def demo_area_statistics_reversed dict_get_def
      create_time_series_data_empty [OF demo_collection_reversed])

text \<open>
  C8, as the specification states it, fails: nothing in the script compares the two dates.
  With the picked range (day 30, day 0) the run sends its queries with that window.
\<close>

theorem reversed_range_counterexample:
  "snd (app demo False [30, 0])
     = [Initialize, Initialize, MapLayer roi 30 0, RoiLayer roi, AreaStatsInfo roi 30 0,
        SizeInfo roi 30 0]
   \<and> list_ex malformed (snd (app demo False [30, 0]))"
  by (simp add: demo_app_reversed malformed_def)

text \<open>
  C8, amended. The script has no boundary check: the two dates the date picker returns
  are passed to the service unchanged. Every request of a run that carries a date window
  carries the picked pair (start, end), whatever their order, and when the first two
  round trips of the run are answered the run does send such a request.
\<close>

theorem date_range_passed_unchanged:
  "(\<forall>rq \<in> set (snd (app svc cached [start_date, end_date])).
       window rq = None \<or> window rq = Some (start_date, end_date))
   \<and> (\<not> fails svc 0 \<and> \<not> fails svc 1
       \<longrightarrow> MapLayer roi start_date end_date \<in> set (snd (app svc cached [start_date, end_date])))"
proof (cases "fails svc 0")
  case True
  then show ?thesis by (simp add: app_startup_failure)
next
  case up0: False
  obtain r calls2 where ip: "init_processor svc cached [Initialize] = (r, calls2)"
    by (cases "init_processor svc cached [Initialize]")
  show ?thesis
  proof (cases r)
    case (Inl err)
    have "set calls2 \<subseteq> {Initialize, Authenticate}"
      using init_failed_calls ip Inl by blast
    moreover have "snd (app svc cached [start_date, end_date]) = calls2"
      using up0 ip Inl by (simp add: app_two_dates)
    moreover have "fails svc 1"
      using ip Inl by (auto simp: init_processor_cases split: if_splits)
    ultimately show ?thesis by auto
  next
    case (Inr u)
    have c2: "set calls2 \<subseteq> {Initialize, Authenticate}"
      using init_calls ip Inr by blast
    obtain shown Z where
      mc: "main_content svc start_date end_date calls2
             = (shown @ [Footer], calls2 @ MapLayer roi start_date end_date # Z)"
      and win: "\<forall>rq \<in> set Z. window rq = Some (start_date, end_date) \<or> rq = RoiLayer roi \<or> rq = RoiArea roi"
      using main_content_calls by blast
    have calls: "snd (app svc cached [start_date, end_date])
                 = calls2 @ MapLayer roi start_date end_date # Z"
      using up0 ip Inr mc by (simp add: app_two_dates)
    have "window rq = None \<or> window rq = Some (start_date, end_date)"
      if "rq \<in> set (calls2 @ MapLayer roi start_date end_date # Z)" for rq
    proof -
      from that consider "rq \<in> set calls2" | "rq = MapLayer roi start_date end_date" | "rq \<in> set Z"
        by auto
      then show ?thesis
      proof cases
        case 1
        then have "rq = Initialize \<or> rq = Authenticate" using c2 by auto
        then show ?thesis by auto
      next
        case 2
        then show ?thesis by simp
      next
        case 3
        then have "window rq = Some (start_date, end_date) \<or> rq = RoiLayer roi \<or> rq = RoiArea roi"
          using win by blast
        then show ?thesis by auto
      qed
    qed
    then show ?thesis unfolding calls by simp
  qed
qed

theorem date_range_passed_unchanged_witness:
  "MapLayer roi 30 0 \<in> set (snd (app demo False [30, 0]))
   \<and> window (MapLayer roi 30 0) = Some (30, 0)"
  using date_range_passed_unchanged [of demo False 30 0] by (simp add: demo_up)

subsection \<open>Runs of the script\<close>

lemma demo_app:
  "app demo False [0, 30] =
     ([MapShown, AverageMetric 125, TotalMetric 537500,
       LineChart \<lparr>Date = [20, 10], Carbon_Storage = [Some 100, Some 200]\<rparr>, Footer],
      [Initialize, Initialize, MapLayer roi 0 30, RoiLayer roi, AreaStatsInfo roi 0 30, RoiArea roi,
       SizeInfo roi 0 30, DateInfo roi 0 30 0, StatsInfo roi 0 30 0,
       DateInfo roi 0 30 1, StatsInfo roi 0 30 1])"
proof -
  have a: "area demo roi = 43000000" by (simp add: demo_def)
  show ?thesis
    by (simp add: app_two_dates init_processor_cases demo_up main_content_def
      carbon_storage_map_cases carbon_storage_statistics_def carbon_storage_over_time_def
      getInfo_def demo_area_statistics dict_get_def demo_time_series a)
qed

text \<open>
  C4 does not hold of the code. The collection is sorted by cloud cover and by nothing
  else, and the rows of the data frame follow the collection. In the sample service the
  later image (day 20) is the clearer one: the data frame handed to the line chart has
  the dates 20, 10, which is not chronological.
\<close>

theorem time_series_by_cloud_cover:
  "fst (app demo False [0, 30]) =
     [MapShown, AverageMetric 125, TotalMetric 537500,
      LineChart \<lparr>Date = [20, 10], Carbon_Storage = [Some 100, Some 200]\<rparr>, Footer]
   \<and> fst (create_time_series_data demo roi 0 30 [])
       = Inr \<lparr>Date = [20, 10], Carbon_Storage = [Some 100, Some 200]\<rparr>
   \<and> \<not> sorted (Date \<lparr>Date = [20, 10], Carbon_Storage = [Some 100, Some 200]\<rparr>)"
  by (simp add: demo_app demo_time_series)

lemma demo_outage_collection:
  "get_ndvi_time_series (demo\<lparr>fails := f\<rparr>) g 0 5 = []"
  by (simp add: get_ndvi_time_series_fails demo_collection_empty)

lemma demo_outage_grid: "grid (demo\<lparr>fails := f\<rparr>) g sc = [(0, 1), (1, 1)]"
  by (simp add: demo_def)

lemma demo_outage_statistics:
  "get_area_statistics (demo\<lparr>fails := f\<rparr>) g 0 5 = Inr []"
  by (simp add: get_area_statistics_def Let_def demo_outage_collection ee_mean_def
      estimate_carbon_storage_def ee_multiply_def reduceRegion_mean_def demo_grid)

lemma demo_retry_app:
  "app demo_retry False [0, 5] =
     ([MapShown, StatsError KeyError, LineChart \<lparr>Date = [], Carbon_Storage = []\<rparr>, Footer],
      [Initialize, Initialize, Authenticate, Initialize, MapLayer roi 0 5, RoiLayer roi,
       AreaStatsInfo roi 0 5, SizeInfo roi 0 5])"
  unfolding demo_retry_def
  by (simp add: app_two_dates init_processor_cases main_content_def
      carbon_storage_map_cases carbon_storage_statistics_def carbon_storage_over_time_def
      getInfo_def demo_outage_statistics dict_get_def
      create_time_series_data_empty [OF demo_outage_collection])

lemma demo_halt_app:
  "app demo_halt False [0, 5] =
     ([InitError, InitInfo], [Initialize, Initialize, Authenticate])"
  unfolding demo_halt_def by (simp add: app_two_dates init_processor_cases)

text \<open>
  C7, as the specification states it, fails twice. When the second \<open>ee.Initialize()\<close> of a
  run (the one in the constructor of the processor) fails, the constructor authenticates
  and initializes again: a retry. When that fails as well, the script shows an error and
  stops, although the startup check had passed.
\<close>

theorem retry_and_second_halt_counterexample:
  "app demo_retry False [0, 5] =
     ([MapShown, StatsError KeyError, LineChart \<lparr>Date = [], Carbon_Storage = []\<rparr>, Footer],
      [Initialize, Initialize, Authenticate, Initialize, MapLayer roi 0 5, RoiLayer roi,
       AreaStatsInfo roi 0 5, SizeInfo roi 0 5])
   \<and> app demo_halt False [0, 5] =
     ([InitError, InitInfo], [Initialize, Initialize, Authenticate])"
  by (simp only: demo_retry_app demo_halt_app simp_thms)

lemma app_after_init:
  assumes "\<not> fails svc 0" and "init_processor svc cached [Initialize] = (Inr u, calls2)"
  shows "\<exists>Z. snd (app svc cached date_range) = calls2 @ Z"
proof (cases "1 < length date_range")
  case False
  then have "snd (app svc cached date_range) = calls2 @ []"
    using assms by (simp add: app_def initialize_earth_engine_def getInfo_def tuple_get_def)
  then show ?thesis by blast
next
  case True
  obtain shown Z where
    mc: "main_content svc (date_range ! 0) (date_range ! 1) calls2
           = (shown @ [Footer], calls2 @ MapLayer roi (date_range ! 0) (date_range ! 1) # Z)"
    using main_content_calls by blast
  have ne: "date_range \<noteq> []" using True by auto
  have "snd (app svc cached date_range) = calls2 @ MapLayer roi (date_range ! 0) (date_range ! 1) # Z"
    using assms True mc ne
    by (simp add: app_def initialize_earth_engine_def getInfo_def tuple_get_def)
  then show ?thesis by blast
qed

text \<open>
  C7, amended. A failure of the startup check (the first round trip of a run) is shown
  once, with the setup instructions, and the run stops there without another round trip.
  The constructor of the processor, run when no processor is cached, initializes again;
  when that fails it authenticates and initializes once more; when either of these fails
  the script shows an error and stops as well. Past initialization, a run over a date
  range of two dates always reaches the footer, whatever fails in the map, the
  statistics or the time series, and none of the requests of these three views is sent
  twice.
\<close>

theorem initialization_halts_views_continue:
  "(fails svc 0 \<longrightarrow> app svc cached date_range = ([SetupInstructions], [Initialize]))
   \<and> (\<not> fails svc 0 \<and> \<not> cached \<and> fails svc 1 \<and> (fails svc 2 \<or> fails svc 3)
       \<longrightarrow> fst (app svc cached date_range) = [InitError, InitInfo])
   \<and> (\<not> fails svc 0 \<and> \<not> cached \<and> fails svc 1 \<and> \<not> fails svc 2 \<and> \<not> fails svc 3
       \<longrightarrow> take 4 (snd (app svc cached date_range))
             = [Initialize, Initialize, Authenticate, Initialize])
   \<and> (\<not> fails svc 0 \<and> (cached \<or> \<not> fails svc 1 \<or> (\<not> fails svc 2 \<and> \<not> fails svc 3))
       \<longrightarrow> (\<exists>shown Z. app svc cached [start_date, end_date]
                  = (shown @ [Footer], snd (init_processor svc cached [Initialize]) @ Z)
              \<and> distinct Z \<and> Initialize \<notin> set Z \<and> Authenticate \<notin> set Z))"
proof (intro conjI impI)
  assume "fails svc 0"
  then show "app svc cached date_range = ([SetupInstructions], [Initialize])"
    by (rule app_startup_failure)
next
  assume "\<not> fails svc 0 \<and> \<not> cached \<and> fails svc 1 \<and> (fails svc 2 \<or> fails svc 3)"
  then show "fst (app svc cached date_range) = [InitError, InitInfo]"
    using app_processor_failure by blast
next
  assume a: "\<not> fails svc 0 \<and> \<not> cached \<and> fails svc 1 \<and> \<not> fails svc 2 \<and> \<not> fails svc 3"
  then have ip: "init_processor svc cached [Initialize]
        = (Inr (), [Initialize, Initialize, Authenticate, Initialize])"
    by (simp add: init_processor_cases)
  from a app_after_init [OF _ ip] obtain Z where
    "snd (app svc cached date_range) = [Initialize, Initialize, Authenticate, Initialize] @ Z"
    by blast
  then show "take 4 (snd (app svc cached date_range))
             = [Initialize, Initialize, Authenticate, Initialize]"
    by simp
next
  assume a: "\<not> fails svc 0 \<and> (cached \<or> \<not> fails svc 1 \<or> (\<not> fails svc 2 \<and> \<not> fails svc 3))"
  then have "\<exists>calls2. init_processor svc cached [Initialize] = (Inr (), calls2)"
    by (auto simp: init_processor_cases)
  then obtain calls2 where ip: "init_processor svc cached [Initialize] = (Inr (), calls2)"
    by blast
  obtain shown Z where
    mc: "main_content svc start_date end_date calls2
           = (shown @ [Footer], calls2 @ MapLayer roi start_date end_date # Z)"
    and d: "distinct (MapLayer roi start_date end_date # Z)"
    and i: "Initialize \<notin> set Z \<and> Authenticate \<notin> set Z"
    using main_content_calls by blast
  have "app svc cached [start_date, end_date]
        = (shown @ [Footer], snd (init_processor svc cached [Initialize])
             @ MapLayer roi start_date end_date # Z)"
    using a ip mc by (simp add: app_two_dates)
  moreover have "Initialize \<notin> set (MapLayer roi start_date end_date # Z)
      \<and> Authenticate \<notin> set (MapLayer roi start_date end_date # Z)"
    using i by simp
  ultimately show "\<exists>shown Z. app svc cached [start_date, end_date]
                  = (shown @ [Footer], snd (init_processor svc cached [Initialize]) @ Z)
              \<and> distinct Z \<and> Initialize \<notin> set Z \<and> Authenticate \<notin> set Z"
    using d by blast
qed

theorem initialization_halts_views_continue_witness:
  "app demo_down False [0, 5] = ([SetupInstructions], [Initialize])
   \<and> fst (app demo_halt False [0, 5]) = [InitError, InitInfo]
   \<and> take 4 (snd (app demo_retry False [0, 5]))
        = [Initialize, Initialize, Authenticate, Initialize]
   \<and> (\<exists>shown Z. app demo False [0, 30] = (shown @ [Footer], [Initialize, Initialize] @ Z)
          \<and> distinct Z \<and> Initialize \<notin> set Z \<and> Authenticate \<notin> set Z)"
proof -
  have w1: "app demo_down False [0, 5] = ([SetupInstructions], [Initialize])"
    using initialization_halts_views_continue [of demo_down False "[0, 5]"]
    by (simp add: demo_down_def)
  have w2: "fst (app demo_halt False [0, 5]) = [InitError, InitInfo]"
    using initialization_halts_views_continue [of demo_halt False "[0, 5]"]
    by (simp add: demo_halt_def)
  have w3: "take 4 (snd (app demo_retry False [0, 5]))
        = [Initialize, Initialize, Authenticate, Initialize]"
    using initialization_halts_views_continue [of demo_retry False "[0, 5]"]
    by (simp add: demo_retry_def)
  have ip: "snd (init_processor demo False [Initialize]) = [Initialize, Initialize]"
    by (simp add: init_processor_cases demo_up)
  have w4: "\<exists>shown Z. app demo False [0, 30] = (shown @ [Footer], [Initialize, Initialize] @ Z)
          \<and> distinct Z \<and> Initialize \<notin> set Z \<and> Authenticate \<notin> set Z"
    using initialization_halts_views_continue [of demo False _ 0 30]
    unfolding ip by (simp add: demo_up)
  show ?thesis using w1 w2 w3 w4 by blast
qed

subsection \<open>The area statistics\<close>

lemma band_names_estimate:
  "map fst (bands (estimate_carbon_storage img)) = map fst (bands img)"
  by (simp add: estimate_carbon_storage_def ee_multiply_def case_prod_unfold comp_def)

lemma mean_ndvi_bands:
  assumes "get_ndvi_time_series svc g s e \<noteq> []"
  shows "bands (ee_mean (get_ndvi_time_series svc g s e))
         = [(''NDVI'', \<lambda>p. mean_valid (map (\<lambda>img. band_value img ''NDVI'' p)
                                       (get_ndvi_time_series svc g s e)))]"
proof -
  obtain img rest where c: "get_ndvi_time_series svc g s e = img # rest"
    using assms by (cases "get_ndvi_time_series svc g s e") auto
  then have "img \<in> set (get_ndvi_time_series svc g s e)" by simp
  then obtain r where r: "bands img = [(''NDVI'', r)]"
    using series_image by blast
  show ?thesis
    unfolding c ee_mean_def by (simp add: r)
qed

lemma carbon_of_mean_bands:
  assumes "get_ndvi_time_series svc g s e \<noteq> []"
  shows "bands (estimate_carbon_storage (ee_mean (get_ndvi_time_series svc g s e)))
         = [(''NDVI'', \<lambda>p. map_option (\<lambda>v. v * 200)
               (mean_valid (map (\<lambda>img. band_value img ''NDVI'' p)
                               (get_ndvi_time_series svc g s e))))]"
  by (simp add: estimate_carbon_storage_def ee_multiply_def mean_ndvi_bands [OF assms])

lemma get_area_statistics_series:
  assumes "get_ndvi_time_series svc g s e \<noteq> []"
  shows "get_area_statistics svc g s e =
     (if 1000000000 < length (grid svc g 30) then Inl EEException
      else Inr [(''NDVI'',
                 weighted_mean (grid svc g 30)
                   (\<lambda>p. map_option (\<lambda>v. v * 200)
                          (mean_valid (map (\<lambda>img. band_value img ''NDVI'' p)
                                          (get_ndvi_time_series svc g s e)))))])"
  by (simp add: get_area_statistics_def Let_def reduceRegion_mean_def
      carbon_of_mean_bands [OF assms])

text \<open>
  C2. \<open>get_area_statistics\<close> reduces the window to one number: per cell the mean of the
  NDVI values of the images of the index series (the temporal mean), times 200, and of
  that the mean over the cells the region samples at a scale of 30 meters. The service
  rejects the reduction when the region has more than \<open>10\<^sup>9\<close> such cells. The number comes
  as the only entry, under the band name, of the dictionary the reduction returns; a
  window without images leaves no band and no entry.
\<close>

theorem area_statistics_pipeline:
  "get_area_statistics svc g s e =
     (if 1000000000 < length (grid svc g 30) then Inl EEException
      else Inr (if get_ndvi_time_series svc g s e = [] then []
                else [(''NDVI'',
                       weighted_mean (grid svc g 30)
                         (\<lambda>p. map_option (\<lambda>v. v * 200)
                                (mean_valid (map (\<lambda>img. band_value img ''NDVI'' p)
                                                (get_ndvi_time_series svc g s e)))))]))"
proof (cases "get_ndvi_time_series svc g s e = []")
  case True
  then have "bands (estimate_carbon_storage (ee_mean (get_ndvi_time_series svc g s e))) = []"
    by (simp add: ee_mean_def estimate_carbon_storage_def ee_multiply_def)
  then show ?thesis
    using True by (simp add: get_area_statistics_def Let_def reduceRegion_mean_def)
next
  case False
  note carbon = carbon_of_mean_bands [OF False]
  show ?thesis
    using False by (simp add: get_area_statistics_def Let_def reduceRegion_mean_def carbon)
qed

theorem area_statistics_pipeline_witness:
  "get_area_statistics demo roi 0 30 = Inr [(''NDVI'', Some 125)]"
proof -
  have "(\<lambda>p::nat. map_option (\<lambda>v. v * 200)
           (mean_valid (map (\<lambda>img. band_value img ''NDVI'' p) (get_ndvi_time_series demo roi 0 30))))
        = (\<lambda>p. if p = 0 then Some 150 else Some 100)"
    unfolding demo_collection
    by (rule ext) (simp add: demo_ndvi_late demo_ndvi_early mean_valid_def)
  then show ?thesis
    using area_statistics_pipeline [of demo roi 0 30]
    by (simp add: demo_grid demo_collection weighted_mean_def)
qed

subsection \<open>The key of the carbon values\<close>

lemma create_time_series_data_values:
  assumes ok: "create_time_series_data svc g s e calls = (Inr df, calls')"
  shows "df = \<lparr>Date = map (\<lambda>img. the (time_start img) div ms_per_day) (get_ndvi_time_series svc g s e),
           Carbon_Storage = map (\<lambda>img. weighted_mean (grid svc g 30)
                (band_value (estimate_carbon_storage img) ''NDVI'')) (get_ndvi_time_series svc g s e)\<rparr>"
proof -
  have up: "\<forall>j \<le> 2 * length (get_ndvi_time_series svc g s e). \<not> fails svc (length calls + j)"
    using create_time_series_data_success [OF ok] by blast
  show ?thesis
  proof (cases "get_ndvi_time_series svc g s e = []")
    case True
    have "\<not> fails svc (length calls)" using up by (metis add.right_neutral le0)
    from create_time_series_data_empty [OF True this] ok show ?thesis
      by (simp add: True)
  next
    case False
    have cap: "length (grid svc g 30) \<le> 1000000000"
    proof (rule ccontr)
      assume "\<not> length (grid svc g 30) \<le> 1000000000"
      then have "1000000000 < length (grid svc g 30)" by simp
      from create_time_series_data_cap [OF False this, where calls = calls] ok show False by simp
    qed
    from create_time_series_data_run [OF up cap] ok show ?thesis by simp
  qed
qed

lemma demo_area_statistics_empty: "get_area_statistics demo g 0 5 = Inr []"
  by (simp add: get_area_statistics_def Let_def demo_collection_empty ee_mean_def
      estimate_carbon_storage_def ee_multiply_def reduceRegion_mean_def demo_grid)

lemma demo_app_empty:
  "app demo False [0, 5] =
     ([MapShown, StatsError KeyError, LineChart \<lparr>Date = [], Carbon_Storage = []\<rparr>, Footer],
      [Initialize, Initialize, MapLayer roi 0 5, RoiLayer roi, AreaStatsInfo roi 0 5,
       SizeInfo roi 0 5])"
  by (simp add: app_two_dates init_processor_cases demo_up main_content_def
      carbon_storage_map_cases carbon_storage_statistics_def carbon_storage_over_time_def
      getInfo_def demo_area_statistics_empty dict_get_def
      create_time_series_data_empty [OF demo_collection_empty])

text \<open>
  C10, as the specification states it, fails for a window without images: the mean of an
  empty collection has no band, so the dictionary that \<open>get_area_statistics\<close> returns,
  without any error, is empty. The script then fails to read the key and shows the
  KeyError as the error of the statistics.
\<close>

theorem empty_window_counterexample:
  "get_area_statistics demo roi 0 5 = Inr []
   \<and> fst (getInfo demo (AreaStatsInfo roi 0 5) (get_area_statistics demo roi 0 5) []) = Inr []
   \<and> dict_get ([] :: (string \<times> real option) list) ''NDVI'' = Inl KeyError
   \<and> fst (app demo False [0, 5])
       = [MapShown, StatsError KeyError, LineChart \<lparr>Date = [], Carbon_Storage = []\<rparr>, Footer]"
  by (simp add: demo_area_statistics_empty demo_app_empty getInfo_def demo_up dict_get_def)

lemma statistics_metric:
  assumes "AverageMetric v \<in> set (fst (carbon_storage_statistics svc s e calls))"
  shows "\<exists>d. get_area_statistics svc roi s e = Inr d \<and> dict_get d ''NDVI'' = Inr (Some v)"
  using assms
  by (auto simp: carbon_storage_statistics_def getInfo_def Let_def
      split: if_splits sum.splits option.splits)

text \<open>
  C10, amended. \<open>estimate_carbon_storage\<close> keeps the band names, so carbon values stay
  under the name NDVI. For a window with at least one image the dictionary of
  \<open>get_area_statistics\<close>, when the reduction is accepted, has the one key NDVI, and under
  it the mean of the carbon band over the region (null when every sampled cell is
  masked); for a window without images it is empty. The dictionary reduced from an image
  of the series has the one key NDVI as well, and the values of the data frame are the
  values under that key. The metric the script shows is the value it read under NDVI.
\<close>

theorem carbon_published_as_NDVI:
  "map fst (bands (estimate_carbon_storage img)) = map fst (bands img)
   \<and> (get_area_statistics svc g s e = Inr d \<and> get_ndvi_time_series svc g s e \<noteq> []
       \<longrightarrow> map fst d = [''NDVI'']
         \<and> dict_get d ''NDVI'' = Inr (weighted_mean (grid svc g 30)
              (band_value (estimate_carbon_storage (ee_mean (get_ndvi_time_series svc g s e))) ''NDVI'')))
   \<and> (get_area_statistics svc g s e = Inr d \<and> get_ndvi_time_series svc g s e = [] \<longrightarrow> d = [])
   \<and> (x \<in> set (get_ndvi_time_series svc g s e)
         \<and> reduceRegion_mean svc (estimate_carbon_storage x) g 30 1000000000 = Inr d'
       \<longrightarrow> map fst d' = [''NDVI'']
         \<and> dict_get d' ''NDVI'' = Inr (weighted_mean (grid svc g 30)
              (band_value (estimate_carbon_storage x) ''NDVI'')))
   \<and> (create_time_series_data svc g s e calls = (Inr df, calls')
       \<longrightarrow> Carbon_Storage df = map (\<lambda>x. weighted_mean (grid svc g 30)
              (band_value (estimate_carbon_storage x) ''NDVI'')) (get_ndvi_time_series svc g s e))
   \<and> (AverageMetric v \<in> set (fst (carbon_storage_statistics svc s e calls))
       \<longrightarrow> (\<exists>sd. get_area_statistics svc roi s e = Inr sd \<and> dict_get sd ''NDVI'' = Inr (Some v)))"
proof (intro conjI impI)
  show "map fst (bands (estimate_carbon_storage img)) = map fst (bands img)"
    by (rule band_names_estimate)
next
  assume a: "get_area_statistics svc g s e = Inr d \<and> get_ndvi_time_series svc g s e \<noteq> []"
  then have ne: "get_ndvi_time_series svc g s e \<noteq> []" by simp
  note b = carbon_of_mean_bands [OF ne]
  have d: "d = [(''NDVI'', weighted_mean (grid svc g 30)
              (band_value (estimate_carbon_storage (ee_mean (get_ndvi_time_series svc g s e))) ''NDVI''))]"
    using a unfolding get_area_statistics_def Let_def reduceRegion_mean_def
    by (simp add: b band_value_single [OF b] split: if_splits)
  show "map fst d = [''NDVI'']" by (subst d) simp
  show "dict_get d ''NDVI'' = Inr (weighted_mean (grid svc g 30)
              (band_value (estimate_carbon_storage (ee_mean (get_ndvi_time_series svc g s e))) ''NDVI''))"
    by (subst d) (simp add: dict_get_def)
next
  assume "get_area_statistics svc g s e = Inr d \<and> get_ndvi_time_series svc g s e = []"
  then have st: "get_area_statistics svc g s e = Inr d" and em: "get_ndvi_time_series svc g s e = []"
    by simp_all
  show "d = []"
    using st unfolding get_area_statistics_def Let_def em
    by (simp add: reduceRegion_mean_def Let_def ee_mean_def estimate_carbon_storage_def
        ee_multiply_def split: if_splits)
next
  assume a: "x \<in> set (get_ndvi_time_series svc g s e)
         \<and> reduceRegion_mean svc (estimate_carbon_storage x) g 30 1000000000 = Inr d'"
  then obtain r where r: "bands x = [(''NDVI'', r)]" using series_image by blast
  have d: "d' = [(''NDVI'', weighted_mean (grid svc g 30)
                   (band_value (estimate_carbon_storage x) ''NDVI''))]"
    using a by (simp add: reduce_ndvi_image [OF r] split: if_splits)
  show "map fst d' = [''NDVI'']" by (subst d) simp
  show "dict_get d' ''NDVI'' = Inr (weighted_mean (grid svc g 30)
              (band_value (estimate_carbon_storage x) ''NDVI''))"
    by (subst d) (simp add: dict_get_def)
next
  assume "create_time_series_data svc g s e calls = (Inr df, calls')"
  from create_time_series_data_values [OF this]
  show "Carbon_Storage df = map (\<lambda>x. weighted_mean (grid svc g 30)
              (band_value (estimate_carbon_storage x) ''NDVI'')) (get_ndvi_time_series svc g s e)"
    by simp
next
  assume "AverageMetric v \<in> set (fst (carbon_storage_statistics svc s e calls))"
  then show "\<exists>sd. get_area_statistics svc roi s e = Inr sd \<and> dict_get sd ''NDVI'' = Inr (Some v)"
    by (rule statistics_metric)
qed

lemma demo_statistics_view:
  "carbon_storage_statistics demo 0 30 calls =
     ([AverageMetric 125, TotalMetric 537500], calls @ [AreaStatsInfo roi 0 30, RoiArea roi])"
proof -
  have a: "area demo roi = 43000000" by (simp add: demo_def)
  show ?thesis
    by (simp add: carbon_storage_statistics_def getInfo_def demo_up demo_area_statistics
        dict_get_def a)
qed

theorem carbon_published_as_NDVI_witness:
  "get_area_statistics demo roi 0 30 = Inr [(''NDVI'', Some 125)]
   \<and> weighted_mean (grid demo roi 30)
        (band_value (estimate_carbon_storage (ee_mean (get_ndvi_time_series demo roi 0 30))) ''NDVI'')
       = Some 125
   \<and> AverageMetric 125 \<in> set (fst (carbon_storage_statistics demo 0 30 []))
   \<and> get_area_statistics demo roi 0 5 = Inr []"
proof -
  note t = carbon_published_as_NDVI [where svc = demo and g = roi and s = 0 and e = 30
      and d = "[(''NDVI'', Some 125)]" and v = 125 and calls = "[]"]
  have ne: "get_ndvi_time_series demo roi 0 30 \<noteq> []" by (simp add: demo_collection)
  have "dict_get [(''NDVI'', Some (125::real))] ''NDVI'' = Inr (weighted_mean (grid demo roi 30)
        (band_value (estimate_carbon_storage (ee_mean (get_ndvi_time_series demo roi 0 30))) ''NDVI''))"
    using t demo_area_statistics [of roi] ne by blast
  then have w: "weighted_mean (grid demo roi 30)
        (band_value (estimate_carbon_storage (ee_mean (get_ndvi_time_series demo roi 0 30))) ''NDVI'')
       = Some 125"
    by (simp add: dict_get_def)
  show ?thesis
    using w by (simp add: demo_area_statistics demo_statistics_view demo_area_statistics_empty)
qed

subsection \<open>Scaling and the two means\<close>

lemma valid_values_scale:
  "concat (map (\<lambda>x. case x of None \<Rightarrow> [] | Some v \<Rightarrow> [v]) (map (map_option f) xs))
     = map f (concat (map (\<lambda>x. case x of None \<Rightarrow> [] | Some v \<Rightarrow> [v]) xs))"
  by (induction xs) (auto split: option.splits)

lemma sum_list_times: "sum_list (map (\<lambda>v. v * c) vs) = sum_list vs * (c::real)"
  by (induction vs) (simp_all add: distrib_right)

lemma mean_valid_scale:
  "mean_valid (map (map_option (\<lambda>v. v * c)) xs) = map_option (\<lambda>v. v * c) (mean_valid xs)"
proof -
  have g: "(if map (\<lambda>v. v * c) vs = [] then None
            else Some (sum_list (map (\<lambda>v. v * c) vs) / real (length (map (\<lambda>v. v * c) vs))))
           = map_option (\<lambda>v. v * c) (if vs = [] then None else Some (sum_list vs / real (length vs)))"
    for vs :: "real list"
    by (simp add: sum_list_times)
  show ?thesis
    unfolding mean_valid_def Let_def valid_values_scale by (rule g)
qed

lemma weighted_values_scale:
  "concat (map (\<lambda>(p, w). case map_option f (r p) of None \<Rightarrow> [] | Some v \<Rightarrow> [(w, v)]) cells)
     = map (\<lambda>(w, v). (w, f v))
         (concat (map (\<lambda>(p, w). case r p of None \<Rightarrow> [] | Some v \<Rightarrow> [(w, v)]) cells))"
  by (induction cells) (auto split: option.splits)

lemma weighted_sum_scale:
  "sum_list (map (\<lambda>(w, v). w * v) (map (\<lambda>(w, v). (w, v * c)) vs))
     = sum_list (map (\<lambda>(w, v). w * v) vs) * (c::real)"
  by (induction vs) (auto simp: distrib_right)

lemma weights_scale: "map fst (map (\<lambda>(w, v). (w, f v)) vs) = map fst vs"
  by (induction vs) auto

lemma weighted_mean_scale:
  "weighted_mean cells (\<lambda>p. map_option (\<lambda>v. v * c) (r p))
     = map_option (\<lambda>v. v * c) (weighted_mean cells r)"
proof -
  have g: "(if map (\<lambda>(w, v). (w, v * c)) vs = [] then None
            else Some (sum_list (map (\<lambda>(w, v). w * v) (map (\<lambda>(w, v). (w, v * c)) vs))
                        / sum_list (map fst (map (\<lambda>(w, v). (w, v * c)) vs))))
           = map_option (\<lambda>v. v * c)
               (if vs = [] then None
                else Some (sum_list (map (\<lambda>(w, v). w * v) vs) / sum_list (map fst vs)))"
    for vs :: "(real \<times> real) list"
    unfolding weighted_sum_scale weights_scale by simp
  show ?thesis
    unfolding weighted_mean_def Let_def weighted_values_scale by (rule g)
qed

lemma bands_estimate:
  "bands (estimate_carbon_storage img)
     = map (\<lambda>(n, r). (n, \<lambda>p. map_option (\<lambda>x. x * 200) (r p))) (bands img)"
  by (simp add: estimate_carbon_storage_def ee_multiply_def)

lemma band_value_estimate:
  "band_value (estimate_carbon_storage img) n p = map_option (\<lambda>x. x * 200) (band_value img n p)"
  by (simp add: estimate_carbon_storage_def band_value_multiply)

lemma estimate_mean_commute:
  "estimate_carbon_storage (ee_mean coll) = ee_mean (map estimate_carbon_storage coll)"
proof (cases coll)
  case Nil
  then show ?thesis by (simp add: ee_mean_def estimate_carbon_storage_def ee_multiply_def)
next
  case (Cons img rest)
  have bv: "(\<lambda>p. mean_valid (map (\<lambda>i. band_value i n p) (map estimate_carbon_storage coll)))
        = (\<lambda>p. map_option (\<lambda>x. x * 200) (mean_valid (map (\<lambda>i. band_value i n p) coll)))" for n
  proof (rule ext)
    fix p
    have "map (\<lambda>i. band_value i n p) (map estimate_carbon_storage coll)
          = map (map_option (\<lambda>x. x * 200)) (map (\<lambda>i. band_value i n p) coll)"
      by (simp add: band_value_estimate comp_def)
    then show "mean_valid (map (\<lambda>i. band_value i n p) (map estimate_carbon_storage coll))
               = map_option (\<lambda>x. x * 200) (mean_valid (map (\<lambda>i. band_value i n p) coll))"
      by (simp only: mean_valid_scale)
  qed
  have "bands (ee_mean (map estimate_carbon_storage coll))
        = map (\<lambda>(n, r). (n, \<lambda>p. mean_valid (map (\<lambda>i. band_value i n p)
                 (map estimate_carbon_storage coll)))) (bands (estimate_carbon_storage img))"
    by (simp add: ee_mean_def Cons)
  also have "\<dots> = map (\<lambda>(n, r). (n, \<lambda>p. map_option (\<lambda>x. x * 200)
                 (mean_valid (map (\<lambda>i. band_value i n p) coll))))
                 (bands (estimate_carbon_storage img))"
    by (simp only: bv)
  also have "\<dots> = map (\<lambda>(n, r). (n, \<lambda>p. map_option (\<lambda>x. x * 200)
                 (mean_valid (map (\<lambda>i. band_value i n p) coll)))) (bands img)"
    by (simp add: bands_estimate case_prod_unfold comp_def)
  finally have lhs: "bands (ee_mean (map estimate_carbon_storage coll))
        = map (\<lambda>(n, r). (n, \<lambda>p. map_option (\<lambda>x. x * 200)
                 (mean_valid (map (\<lambda>i. band_value i n p) coll)))) (bands img)" .
  have rhs: "bands (estimate_carbon_storage (ee_mean coll))
        = map (\<lambda>(n, r). (n, \<lambda>p. map_option (\<lambda>x. x * 200)
                 (mean_valid (map (\<lambda>i. band_value i n p) coll)))) (bands img)"
    unfolding bands_estimate by (simp add: ee_mean_def Cons case_prod_unfold comp_def)
  have ts: "time_start (ee_mean (map estimate_carbon_storage coll)) = None"
    "time_start (estimate_carbon_storage (ee_mean coll)) = None"
    by (simp_all add: ee_mean_def Cons estimate_carbon_storage_def ee_multiply_def)
  show ?thesis using lhs rhs ts by simp
qed

lemma estimate_reduce_commute:
  "reduceRegion_mean svc (estimate_carbon_storage img) g scale cap =
     (case reduceRegion_mean svc img g scale cap of
        Inl err \<Rightarrow> Inl err
      | Inr d \<Rightarrow> Inr (map (\<lambda>(n, v). (n, map_option (\<lambda>x. x * 200) v)) d))"
  by (simp add: reduceRegion_mean_def Let_def bands_estimate
      case_prod_unfold comp_def weighted_mean_scale)

lemma mean_valid_total:
  assumes "xs \<noteq> []" and "\<forall>x \<in> set xs. h x \<noteq> None"
  shows "mean_valid (map h xs) = Some (sum_list (map (\<lambda>x. the (h x)) xs) / real (length xs))"
proof -
  have "concat (map (\<lambda>x. case x of None \<Rightarrow> [] | Some v \<Rightarrow> [v]) (map h xs)) = map (\<lambda>x. the (h x)) xs"
    using assms(2) by (induction xs) auto
  then show ?thesis using assms(1) by (simp add: mean_valid_def)
qed

lemma weighted_mean_total:
  assumes "cells \<noteq> []" and "\<forall>c \<in> set cells. r (fst c) = Some (h (fst c))"
  shows "weighted_mean cells r
         = Some (sum_list (map (\<lambda>c. snd c * h (fst c)) cells) / sum_list (map snd cells))"
proof -
  have "concat (map (\<lambda>(p, w). case r p of None \<Rightarrow> [] | Some v \<Rightarrow> [(w, v)]) cells)
        = map (\<lambda>c. (snd c, h (fst c))) cells"
    using assms(2) by (induction cells) auto
  then show ?thesis
    using assms(1) by (simp add: weighted_mean_def comp_def)
qed

lemma sum_list_swap:
  "sum_list (map (\<lambda>x. sum_list (map (\<lambda>c. k x c) cs)) xs)
     = sum_list (map (\<lambda>c. sum_list (map (\<lambda>x. k x c) xs)) cs)" for k :: "'a \<Rightarrow> 'b \<Rightarrow> real"
  by (induction xs) (simp_all add: sum_list_addf)

lemma sum_list_over: "sum_list (map (\<lambda>x. k x / c) xs) = sum_list (map k xs) / (c::real)"
  by (induction xs) (simp_all add: add_divide_distrib)

lemma mean_of_means:
  fixes f :: "'a \<Rightarrow> nat \<Rightarrow> real"
  shows "sum_list (map (\<lambda>c. snd c * (sum_list (map (\<lambda>x. f x (fst c)) xs) / real (length xs) * 200)) cells)
           / sum_list (map snd cells)
       = sum_list (map (\<lambda>x. sum_list (map (\<lambda>c. snd c * (f x (fst c) * 200)) cells)
                               / sum_list (map snd cells)) xs) / real (length xs)"
proof -
  let ?W = "sum_list (map snd cells)"
  let ?N = "real (length xs)"
  have "sum_list (map (\<lambda>c. snd c * (sum_list (map (\<lambda>x. f x (fst c)) xs) / ?N * 200)) cells)
        = sum_list (map (\<lambda>c. sum_list (map (\<lambda>x. snd c * (f x (fst c) * 200)) xs) / ?N) cells)"
  proof -
    have e: "snd c * (sum_list (map (\<lambda>x. f x (fst c)) xs) / ?N * 200)
          = sum_list (map (\<lambda>x. snd c * (f x (fst c) * 200)) xs) / ?N" for c :: "nat \<times> real"
    proof -
      have "sum_list (map (\<lambda>x. snd c * (f x (fst c) * 200)) xs)
            = snd c * (sum_list (map (\<lambda>x. f x (fst c)) xs) * 200)"
        by (simp add: sum_list_const_mult sum_list_mult_const)
      then show ?thesis by simp
    qed
    show ?thesis by (simp only: e)
  qed
  also have "\<dots> = sum_list (map (\<lambda>c. sum_list (map (\<lambda>x. snd c * (f x (fst c) * 200)) xs)) cells) / ?N"
    by (rule sum_list_over)
  also have "\<dots> = sum_list (map (\<lambda>x. sum_list (map (\<lambda>c. snd c * (f x (fst c) * 200)) cells)) xs) / ?N"
    by (simp only: sum_list_swap [of "\<lambda>x c. snd c * (f x (fst c) * 200)" cells xs])
  finally have num: "sum_list (map (\<lambda>c. snd c * (sum_list (map (\<lambda>x. f x (fst c)) xs) / ?N * 200)) cells)
        = sum_list (map (\<lambda>x. sum_list (map (\<lambda>c. snd c * (f x (fst c) * 200)) cells)) xs) / ?N" .
  have "sum_list (map (\<lambda>x. sum_list (map (\<lambda>c. snd c * (f x (fst c) * 200)) cells) / ?W) xs)
        = sum_list (map (\<lambda>x. sum_list (map (\<lambda>c. snd c * (f x (fst c) * 200)) cells)) xs) / ?W"
    by (rule sum_list_over)
  then show ?thesis unfolding num by (simp add: mult.commute)
qed

lemma mean_valid_single: "mean_valid [y] = y"
  by (cases y) (simp_all add: mean_valid_def)

lemma single_image_statistics:
  assumes one: "get_ndvi_time_series svc g s e = [x]"
    and ok: "create_time_series_data svc g s e calls = (Inr df, calls')"
  shows "Carbon_Storage df = [weighted_mean (grid svc g 30) (band_value (estimate_carbon_storage x) ''NDVI'')]
       \<and> get_area_statistics svc g s e
           = Inr [(''NDVI'', weighted_mean (grid svc g 30) (band_value (estimate_carbon_storage x) ''NDVI''))]"
proof -
  have vals: "Carbon_Storage df
        = [weighted_mean (grid svc g 30) (band_value (estimate_carbon_storage x) ''NDVI'')]"
    using create_time_series_data_values [OF ok] by (simp add: one)
  have ne: "get_ndvi_time_series svc g s e \<noteq> []" by (simp add: one)
  have cap: "\<not> 1000000000 < length (grid svc g 30)"
    using create_time_series_data_cap [OF ne, where calls = calls] ok by auto
  have r: "(\<lambda>p. map_option (\<lambda>v. v * 200)
              (mean_valid (map (\<lambda>img. band_value img ''NDVI'' p) (get_ndvi_time_series svc g s e))))
           = band_value (estimate_carbon_storage x) ''NDVI''"
    by (rule ext) (simp add: one mean_valid_single band_value_estimate)
  have "get_area_statistics svc g s e
        = Inr [(''NDVI'', weighted_mean (grid svc g 30) (band_value (estimate_carbon_storage x) ''NDVI''))]"
    unfolding get_area_statistics_series [OF ne] r using cap by simp
  then show ?thesis using vals by simp
qed

lemma unmasked_statistics:
  assumes ok: "create_time_series_data svc g s e calls = (Inr df, calls')"
    and ne: "get_ndvi_time_series svc g s e \<noteq> []"
    and cells: "grid svc g 30 \<noteq> []"
    and valid: "\<forall>x \<in> set (get_ndvi_time_series svc g s e). \<forall>c \<in> set (grid svc g 30).
                  band_value x ''NDVI'' (fst c) \<noteq> None"
  shows "get_area_statistics svc g s e
         = Inr [(''NDVI'', Some (sum_list (map the (Carbon_Storage df))
                                  / real (length (Carbon_Storage df))))]"
proof -
  let ?series = "get_ndvi_time_series svc g s e"
  let ?cells = "grid svc g 30"
  let ?f = "\<lambda>x p. the (band_value x ''NDVI'' p)"
  let ?W = "sum_list (map snd ?cells)"
  let ?A = "\<lambda>x. sum_list (map (\<lambda>c. snd c * (?f x (fst c) * 200)) ?cells)"
  have vals: "Carbon_Storage df
        = map (\<lambda>x. weighted_mean ?cells (band_value (estimate_carbon_storage x) ''NDVI'')) ?series"
    using create_time_series_data_values [OF ok] by simp
  have row: "weighted_mean ?cells (band_value (estimate_carbon_storage x) ''NDVI'') = Some (?A x / ?W)"
    if "x \<in> set ?series" for x
  proof (rule weighted_mean_total [OF cells])
    show "\<forall>c \<in> set ?cells. band_value (estimate_carbon_storage x) ''NDVI'' (fst c)
                                = Some (?f x (fst c) * 200)"
      using valid that by (auto simp: band_value_estimate)
  qed
  have mt: "map the (Carbon_Storage df) = map (\<lambda>x. ?A x / ?W) ?series"
    unfolding vals by (simp add: row)
  have len: "length (Carbon_Storage df) = length ?series"
    by (simp add: vals)
  have avg: "sum_list (map the (Carbon_Storage df)) / real (length (Carbon_Storage df))
        = sum_list (map (\<lambda>x. ?A x / ?W) ?series) / real (length ?series)"
    by (simp only: mt len)
  have cap: "\<not> 1000000000 < length ?cells"
    using create_time_series_data_cap [OF ne, where calls = calls] ok by auto
  have tm: "map_option (\<lambda>v. v * 200) (mean_valid (map (\<lambda>img. band_value img ''NDVI'' (fst c)) ?series))
        = Some (sum_list (map (\<lambda>x. ?f x (fst c)) ?series) / real (length ?series) * 200)"
    if "c \<in> set ?cells" for c
  proof -
    have "\<forall>x \<in> set ?series. band_value x ''NDVI'' (fst c) \<noteq> None"
      using valid that by blast
    from mean_valid_total [OF ne this] show ?thesis by simp
  qed
  have "weighted_mean ?cells (\<lambda>p. map_option (\<lambda>v. v * 200)
            (mean_valid (map (\<lambda>img. band_value img ''NDVI'' p) ?series)))
        = Some (sum_list (map (\<lambda>c. snd c * (sum_list (map (\<lambda>x. ?f x (fst c)) ?series)
                    / real (length ?series) * 200)) ?cells) / ?W)"
    by (rule weighted_mean_total [OF cells]) (simp add: tm)
  also have "\<dots> = Some (sum_list (map (\<lambda>x. ?A x / ?W) ?series) / real (length ?series))"
    by (simp only: mean_of_means [where f = "\<lambda>x p. the (band_value x ''NDVI'' p)"
          and xs = "get_ndvi_time_series svc g s e" and cells = "grid svc g 30"])
  finally have "weighted_mean ?cells (\<lambda>p. map_option (\<lambda>v. v * 200)
            (mean_valid (map (\<lambda>img. band_value img ''NDVI'' p) ?series)))
        = Some (sum_list (map the (Carbon_Storage df)) / real (length (Carbon_Storage df)))"
    by (simp only: avg)
  then show ?thesis
    unfolding get_area_statistics_series [OF ne] using cap by simp
qed

text \<open>
  C9, as stated, fails where cells are masked. In the sample service the cloudier image
  has a masked cell; the time series has the values 100 and 200, whose average is 150,
  while the area statistic, which averages per cell over the images that have the cell,
  is 125.
\<close>

theorem masked_cells_counterexample:
  "get_area_statistics demo roi 0 30 = Inr [(''NDVI'', Some 125)]
   \<and> fst (create_time_series_data demo roi 0 30 [])
       = Inr \<lparr>Date = [20, 10], Carbon_Storage = [Some 100, Some 200]\<rparr>
   \<and> sum_list (map the [Some 100, Some 200]) / real (length [Some (100::real), Some 200]) = 150
   \<and> (150::real) \<noteq> 125"
  by (simp add: demo_area_statistics demo_time_series)

text \<open>
  C9, amended. Scaling by 200 commutes with the temporal mean of a collection and with
  the mean reduction of an image over a region. When the region samples at least one
  cell and none of its cells is masked in any image of a window that has images, the
  area statistic is the average of the values of the time series; with masked cells the
  two can differ. For a window with
  exactly one image the area statistic is that image's value of the time series, masked
  cells or not.
\<close>

theorem scaling_commutes_with_means:
  "estimate_carbon_storage (ee_mean coll) = ee_mean (map estimate_carbon_storage coll)
   \<and> reduceRegion_mean svc (estimate_carbon_storage img) g scale cap =
       (case reduceRegion_mean svc img g scale cap of
          Inl err \<Rightarrow> Inl err
        | Inr d \<Rightarrow> Inr (map (\<lambda>(n, v). (n, map_option (\<lambda>x. x * 200) v)) d))
   \<and> (create_time_series_data svc g s e calls = (Inr df, calls')
        \<and> get_ndvi_time_series svc g s e \<noteq> [] \<and> grid svc g 30 \<noteq> []
        \<and> (\<forall>x \<in> set (get_ndvi_time_series svc g s e). \<forall>c \<in> set (grid svc g 30).
               band_value x ''NDVI'' (fst c) \<noteq> None)
       \<longrightarrow> get_area_statistics svc g s e
             = Inr [(''NDVI'', Some (sum_list (map the (Carbon_Storage df))
                                      / real (length (Carbon_Storage df))))])
   \<and> (create_time_series_data svc g s e calls = (Inr df, calls')
        \<and> length (get_ndvi_time_series svc g s e) = 1
       \<longrightarrow> (\<exists>v. Carbon_Storage df = [v] \<and> get_area_statistics svc g s e = Inr [(''NDVI'', v)]))"
proof (intro conjI impI)
  show "estimate_carbon_storage (ee_mean coll) = ee_mean (map estimate_carbon_storage coll)"
    by (rule estimate_mean_commute)
next
  show "reduceRegion_mean svc (estimate_carbon_storage img) g scale cap =
       (case reduceRegion_mean svc img g scale cap of
          Inl err \<Rightarrow> Inl err
        | Inr d \<Rightarrow> Inr (map (\<lambda>(n, v). (n, map_option (\<lambda>x. x * 200) v)) d))"
    by (rule estimate_reduce_commute)
next
  assume a: "create_time_series_data svc g s e calls = (Inr df, calls')
        \<and> get_ndvi_time_series svc g s e \<noteq> [] \<and> grid svc g 30 \<noteq> []
        \<and> (\<forall>x \<in> set (get_ndvi_time_series svc g s e). \<forall>c \<in> set (grid svc g 30).
               band_value x ''NDVI'' (fst c) \<noteq> None)"
  show "get_area_statistics svc g s e
             = Inr [(''NDVI'', Some (sum_list (map the (Carbon_Storage df))
                                      / real (length (Carbon_Storage df))))]"
    by (rule unmasked_statistics) (use a in blast)+
next
  assume a: "create_time_series_data svc g s e calls = (Inr df, calls')
        \<and> length (get_ndvi_time_series svc g s e) = 1"
  then obtain x where one: "get_ndvi_time_series svc g s e = [x]"
    by (cases "get_ndvi_time_series svc g s e") auto
  from a have ok: "create_time_series_data svc g s e calls = (Inr df, calls')" by simp
  from single_image_statistics [OF one ok]
  show "\<exists>v. Carbon_Storage df = [v] \<and> get_area_statistics svc g s e = Inr [(''NDVI'', v)]"
    by blast
qed

lemma demo_clear_up: "\<not> fails demo_clear n"
  and demo_clear_grid: "grid demo_clear g sc = [(0, 1), (1, 1)]"
  by (simp_all add: demo_clear_def demo_def)

lemma demo_clear_collection:
  "get_ndvi_time_series demo_clear g 0 30
     = [ee_select ''NDVI'' (add_ndvi scene_late), ee_select ''NDVI'' (add_ndvi scene_clear)]"
  by (simp add: get_ndvi_time_series_def Let_def sort_CLOUD_COVER_def filterDate_def
      filterBounds_def demo_clear_def demo_def scene_clear_def scene_late_def ms_per_day_def)

lemma demo_ndvi_clear:
  "band_value (ee_select ''NDVI'' (add_ndvi scene_clear)) ''NDVI'' p = Some 0"
  by (simp add: band_value_def select_add_ndvi ee_divide_def ee_subtract_def ee_add_def
      band_op_def scene_clear_def)

lemma demo_carbon_clear:
  "band_value (estimate_carbon_storage (ee_select ''NDVI'' (add_ndvi scene_clear))) ''NDVI''
     = (\<lambda>p. Some 0)"
  by (rule ext) (simp add: band_value_estimate demo_ndvi_clear)

lemma demo_clear_time_series:
  "create_time_series_data demo_clear roi 0 30 [] =
     (Inr \<lparr>Date = [20, 15], Carbon_Storage = [Some 100, Some 0]\<rparr>,
      [SizeInfo roi 0 30, DateInfo roi 0 30 0, StatsInfo roi 0 30 0,
       DateInfo roi 0 30 1, StatsInfo roi 0 30 1])"
proof -
  have up: "\<forall>j \<le> 2 * length (get_ndvi_time_series demo_clear roi 0 30).
               \<not> fails demo_clear (length ([] :: request list) + j)"
    by (simp add: demo_clear_up)
  have cap: "length (grid demo_clear roi 30) \<le> 1000000000" by (simp add: demo_clear_grid)
  have two: "[0..<2] = [0, 1]" by (simp add: upt_rec)
  have dates: "the (time_start (ee_select ''NDVI'' (add_ndvi scene_late))) div ms_per_day = 20"
    "the (time_start (ee_select ''NDVI'' (add_ndvi scene_clear))) div ms_per_day = 15"
    by (simp_all add: select_add_ndvi scene_late_def scene_clear_def ms_per_day_def)
  have v0: "weighted_mean [(0, 1), (1, 1)] (\<lambda>p. Some 0) = Some 0"
    by (simp add: weighted_mean_def)
  show ?thesis
    unfolding create_time_series_data_run [OF up cap] demo_clear_collection demo_clear_grid
    by (simp only: list.map demo_carbon_late demo_carbon_clear demo_values v0 dates) (simp add: two)
qed

theorem scaling_commutes_with_means_witness:
  "fst (create_time_series_data demo_clear roi 0 30 [])
     = Inr \<lparr>Date = [20, 15], Carbon_Storage = [Some 100, Some 0]\<rparr>
   \<and> get_area_statistics demo_clear roi 0 30 = Inr [(''NDVI'', Some 50)]"
proof -
  have "band_value x ''NDVI'' p \<noteq> None"
    if "x \<in> set (get_ndvi_time_series demo_clear roi 0 30)" for x p
    using that unfolding demo_clear_collection
    by (auto simp only: list.set insert_iff empty_iff demo_ndvi_late demo_ndvi_clear option.distinct)
  then have valid: "\<forall>x \<in> set (get_ndvi_time_series demo_clear roi 0 30).
                 \<forall>c \<in> set (grid demo_clear roi 30). band_value x ''NDVI'' (fst c) \<noteq> None"
    by blast
  have ne: "get_ndvi_time_series demo_clear roi 0 30 \<noteq> []" by (simp add: demo_clear_collection)
  have cells: "grid demo_clear roi 30 \<noteq> []" by (simp add: demo_clear_grid)
  note t = scaling_commutes_with_means [where svc = demo_clear and g = roi and s = 0 and e = 30
      and calls = "[]" and df = "\<lparr>Date = [20, 15], Carbon_Storage = [Some 100, Some 0]\<rparr>"
      and calls' = "[SizeInfo roi 0 30, DateInfo roi 0 30 0, StatsInfo roi 0 30 0,
                     DateInfo roi 0 30 1, StatsInfo roi 0 30 1]"]
  have "get_area_statistics demo_clear roi 0 30
        = Inr [(''NDVI'', Some (sum_list (map the
              (Carbon_Storage \<lparr>Date = [20, 15], Carbon_Storage = [Some 100, Some 0]\<rparr>))
            / real (length (Carbon_Storage \<lparr>Date = [20, 15], Carbon_Storage = [Some 100, Some (0::real)]\<rparr>))))]"
    using t demo_clear_time_series valid ne cells by blast
  then show ?thesis by (simp add: demo_clear_time_series)
qed

end
